theory Spec2Isabelle
  imports Complex_Main "HOL-Library.Log_Nat"
begin

section \<open>Data model of \<open>FrameAnimator\<close> (src/js/frame-animator.js)\<close>

text \<open>
  JavaScript numbers that reach the constructor through the options object.  A finite
  number is the rational it denotes; \<open>NaN\<close> (what \<open>parseInt\<close> gives for a missing
  attribute) and \<open>undefined\<close> (an absent option) are kept apart because truthiness
  treats them like \<open>0\<close>.  The options are stored, not computed with; the arithmetic
  the methods do on numbers is double arithmetic, modelled below.
\<close>

datatype jsval = Undefined | NaN | Num rat

fun truthy :: "jsval \<Rightarrow> bool" where
  "truthy Undefined = False"
| "truthy NaN = False"
| "truthy (Num q) = (q \<noteq> 0)"

text \<open>\<open>x || d\<close> for a numeric option with a numeric default.\<close>

fun or_default :: "jsval \<Rightarrow> rat \<Rightarrow> rat" where
  "or_default (Num q) d = (if q \<noteq> 0 then q else d)"
| "or_default Undefined d = d"
| "or_default NaN d = d"

subsection \<open>Double arithmetic\<close>

text \<open>
  The value of a JavaScript number expression: a finite double (the rational it denotes),
  an infinity or \<open>NaN\<close>.  The two zeros are not distinguished: the divisors of the
  animator are a stored option and the size of an image, never a computed negative zero.
\<close>

datatype dbl = Fin rat | PosInf | NegInf | NaNd

definition pow2 :: "int \<Rightarrow> rat" where
  "pow2 e = (if 0 \<le> e then 2 ^ nat e else 1 / 2 ^ nat (- e))"

text \<open>For \<open>a > 0\<close>, the exponent \<open>e\<close> with \<open>2^e \<le> a < 2^(e+1)\<close>.\<close>

definition ilog2 :: "rat \<Rightarrow> int" where
  "ilog2 a = (case quotient_of a of (p, q) \<Rightarrow>
                (let e0 = bitlen p - bitlen q in if pow2 e0 \<le> a then e0 else e0 - 1))"

definition roundHalfEven :: "rat \<Rightarrow> int" where
  "roundHalfEven x =
     (let f = \<lfloor>x\<rfloor>; d = x - of_int f
      in if d < 1 / 2 then f else if 1 / 2 < d then f + 1 else if even f then f else f + 1)"

text \<open>
  Rounding of an exact result to binary64, to nearest with ties to even: 53 significant
  bits, exponents from \<open>-1022\<close> (below which the spacing stays \<open>2^-1074\<close>: subnormals and
  underflow to zero), overflow to an infinity when the rounded magnitude reaches
  \<open>2^1024\<close>, that is from \<open>2^1024 - 2^970\<close> on.
\<close>

definition toDouble :: "rat \<Rightarrow> dbl" where
  "toDouble x =
     (if x = 0 then Fin 0
      else (let a = \<bar>x\<bar>;
                e = max (ilog2 a) (- 1022);
                ulp = pow2 (e - 52);
                r = of_int (roundHalfEven (a / ulp)) * ulp
            in if 1024 \<le> ilog2 r then (if 0 < x then PosInf else NegInf)
               else Fin (if 0 < x then r else - r)))"

text \<open>\<open>t - y\<close> for a finite \<open>t\<close> (a timestamp of the host).\<close>

fun dsub :: "rat \<Rightarrow> dbl \<Rightarrow> dbl" where
  "dsub t (Fin y) = toDouble (t - y)"
| "dsub t PosInf = NegInf"
| "dsub t NegInf = PosInf"
| "dsub t NaNd = NaNd"

text \<open>\<open>a / b\<close> for finite \<open>a\<close> and \<open>b\<close>.\<close>

definition ddiv :: "rat \<Rightarrow> rat \<Rightarrow> dbl" where
  "ddiv a b =
     (if b = 0 then (if a = 0 then NaNd else if 0 < a then PosInf else NegInf)
      else toDouble (a / b))"

text \<open>\<open>x > y\<close>: false as soon as one side is \<open>NaN\<close>.\<close>

fun dgt :: "dbl \<Rightarrow> dbl \<Rightarrow> bool" where
  "dgt (Fin a) (Fin b) = (b < a)"
| "dgt (Fin a) PosInf = False"
| "dgt (Fin a) NegInf = True"
| "dgt PosInf (Fin b) = True"
| "dgt PosInf PosInf = False"
| "dgt PosInf NegInf = True"
| "dgt NegInf y = False"
| "dgt NaNd y = False"
| "dgt x NaNd = False"

text \<open>
  The remainder of two finite numbers: the quotient is truncated towards zero, and the
  result needs no rounding.
\<close>

definition js_rem :: "rat \<Rightarrow> rat \<Rightarrow> rat" where
  "js_rem a b = a - b * of_int (if a / b < 0 then \<lceil>a / b\<rceil> else \<lfloor>a / b\<rfloor>)"

text \<open>\<open>x % y\<close>.\<close>

fun drem :: "dbl \<Rightarrow> dbl \<Rightarrow> dbl" where
  "drem (Fin a) (Fin b) = (if b = 0 then NaNd else Fin (js_rem a b))"
| "drem (Fin a) PosInf = Fin a"
| "drem (Fin a) NegInf = Fin a"
| "drem (Fin a) NaNd = NaNd"
| "drem PosInf y = NaNd"
| "drem NegInf y = NaNd"
| "drem NaNd y = NaNd"

text \<open>\<open>a * y\<close> for a finite \<open>a\<close>, and \<open>Math.min(x, y)\<close>.\<close>

fun dmul :: "rat \<Rightarrow> dbl \<Rightarrow> dbl" where
  "dmul a (Fin y) = toDouble (a * y)"
| "dmul a PosInf = (if a = 0 then NaNd else if 0 < a then PosInf else NegInf)"
| "dmul a NegInf = (if a = 0 then NaNd else if 0 < a then NegInf else PosInf)"
| "dmul a NaNd = NaNd"

fun dmin :: "dbl \<Rightarrow> dbl \<Rightarrow> dbl" where
  "dmin NaNd y = NaNd"
| "dmin x NaNd = NaNd"
| "dmin x y = (if dgt x y then y else x)"

subsection \<open>Options and instance state\<close>

type_synonym image = nat

record options =
  opt_canvas :: "nat option"
  opt_prefix :: "string option"
  opt_frameCount :: jsval
  opt_imagePath :: "string option"
  opt_digits :: jsval
  opt_fps :: jsval
  opt_loop :: "bool option"
  opt_autoplay :: "bool option"
  opt_debug :: "bool option"
  opt_playOnce :: "bool option"

text \<open>
  The fields of \<open>this\<close>, in the order the constructor assigns them, followed by the part
  of the host the methods act on: the values last assigned to \<open>canvas.width\<close> and
  \<open>canvas.height\<close> (\<open>None\<close> before the first assignment), the history of frame
  indices handed to \<open>drawImage\<close>, the history of fractions handed to \<open>updateProgress\<close>,
  and the callbacks registered with \<open>requestAnimationFrame\<close> and not yet fired or
  cancelled (\<open>rafCounter\<close> is the last handle the host gave out; handles are positive).
  \<open>lastTime\<close> is \<open>None\<close> (\<open>undefined\<close>) until \<open>play\<close> or \<open>playFromFrame\<close> assigns it.
  \<open>fps\<close>, the timestamps of the host and \<open>performance.now()\<close> are finite doubles.
\<close>

record animator =
  canvas :: nat
  prefix :: string
  frameCount :: nat
  imagePath :: string
  digits :: rat
  fps :: rat
  loop :: bool
  autoplay :: bool
  debug :: bool
  playOnce :: bool
  images :: "image option list"
  currentFrame :: nat
  isPlaying :: bool
  animationId :: "nat option"
  hasError :: bool
  originalWidth :: nat
  originalHeight :: nat
  scale :: dbl
  hasPlayed :: bool
  loadedCount :: nat
  isLoading :: bool
  loadStartTime :: rat
  lastTime :: "dbl option"
  canvasWidth :: "dbl option"
  canvasHeight :: "dbl option"
  drawn :: "nat list"
  progressLog :: "rat list"
  rafCounter :: nat
  pending :: "nat list"

datatype error = MissingCanvas | MissingPrefix | MissingFrameCount | InvalidArrayLength

section \<open>Helper methods: \<open>normalizePath\<close>, \<open>getFramePath\<close>\<close>

text \<open>\<open>path.endsWith('/') ? path : path + '/'\<close>\<close>

definition endsWith :: "string \<Rightarrow> char \<Rightarrow> bool" where
  "endsWith s c = (s \<noteq> [] \<and> last s = c)"

definition normalizePath :: "string \<Rightarrow> string" where
  "normalizePath path = (if endsWith path CHR ''/'' then path else path @ ''/'')"

text \<open>\<open>Number.prototype.toString\<close> on a frame number: its decimal digits.\<close>

definition digitChar :: "nat \<Rightarrow> char" where
  "digitChar d = ''0123456789'' ! (d mod 10)"

function toString :: "nat \<Rightarrow> string" where
  "toString n = (if n < 10 then [digitChar n] else toString (n div 10) @ [digitChar (n mod 10)])"
  by pat_completeness auto
termination
  by (relation "measure (\<lambda>n. n)") auto

declare toString.simps [simp del]

text \<open>
  \<open>s.padStart(targetLength, '0')\<close>: the target length is truncated to an integer and a
  target not above the length of \<open>s\<close> (also a negative one) leaves \<open>s\<close> as it is.  The
  host's limit on the length of a string is not modelled.
\<close>

definition padStart :: "rat \<Rightarrow> char \<Rightarrow> string \<Rightarrow> string" where
  "padStart targetLength c s = replicate (nat \<lfloor>targetLength\<rfloor> - length s) c @ s"

definition getFramePath :: "animator \<Rightarrow> nat \<Rightarrow> string" where
  "getFramePath s index =
     (let frameNum = padStart (digits s) CHR ''0'' (toString index)
      in imagePath s @ prefix s @ ''/'' @ prefix s @ frameNum @ ''.webp'')"

section \<open>Construction\<close>

text \<open>
  \<open>new Array(n)\<close> raises \<open>RangeError: Invalid array length\<close> unless \<open>n\<close> is an integer
  with \<open>0 \<le> n < 2^32\<close>.
\<close>

definition validArrayLength :: "rat \<Rightarrow> bool" where
  "validArrayLength q = (of_int \<lfloor>q\<rfloor> = q \<and> 0 \<le> q \<and> q < 4294967296)"

definition defaultImagePath :: string where
  "defaultImagePath = ''./media/imgOpt/''"

text \<open>\<open>options.imagePath || './media/imgOpt/'\<close>: the empty string is falsy.\<close>

fun path_or_default :: "string option \<Rightarrow> string" where
  "path_or_default None = defaultImagePath"
| "path_or_default (Some p) = (if p = [] then defaultImagePath else p)"

text \<open>
  The constructor up to the point where it hands over to the asynchronous \<open>init\<close>.  The
  three checks of lines 3 to 5 come first, in the source's order; line 19 allocates the
  slot array and is the only other statement that can raise on options of these types
  (the canvas is taken to be a canvas element attached to a parent).
\<close>

definition FrameAnimator :: "options \<Rightarrow> error + animator" where
  "FrameAnimator opts =
     (case opt_canvas opts of None \<Rightarrow> Inl MissingCanvas
      | Some cv \<Rightarrow>
     (case opt_prefix opts of None \<Rightarrow> Inl MissingPrefix
      | Some pf \<Rightarrow>
        if pf = [] then Inl MissingPrefix
        else if \<not> truthy (opt_frameCount opts) then Inl MissingFrameCount
        else (case opt_frameCount opts of
                Num fc \<Rightarrow>
                  if \<not> validArrayLength fc then Inl InvalidArrayLength
                  else Inr \<lparr> canvas = cv, prefix = pf, frameCount = nat \<lfloor>fc\<rfloor>,
                    imagePath = normalizePath (path_or_default (opt_imagePath opts)),
                    digits = or_default (opt_digits opts) 3,
                    fps = or_default (opt_fps opts) 24,
                    loop = (opt_loop opts \<noteq> Some False),
                    autoplay = (opt_autoplay opts \<noteq> Some False),
                    debug = (opt_debug opts = Some True),
                    playOnce = (opt_playOnce opts = Some True),
                    images = replicate (nat \<lfloor>fc\<rfloor>) None,
                    currentFrame = 0, isPlaying = False, animationId = None,
                    hasError = False, originalWidth = 0, originalHeight = 0, scale = Fin 1,
                    hasPlayed = False, loadedCount = 0, isLoading = False,
                    loadStartTime = 0, lastTime = None,
                    canvasWidth = None, canvasHeight = None, drawn = [], progressLog = [],
                    rafCounter = 0, pending = [] \<rparr>
              | _ \<Rightarrow> Inl MissingFrameCount)))"

section \<open>Loading\<close>

text \<open>
  \<open>this.images[i]\<close>: a read outside the array gives \<open>undefined\<close>, which is falsy like the
  \<open>null\<close> of an empty slot.
\<close>

definition slot :: "image option list \<Rightarrow> nat \<Rightarrow> image option" where
  "slot imgs i = (if i < length imgs then imgs ! i else None)"

datatype load_error = FrameLoadError nat

text \<open>
  The host's decoder is a parameter \<open>decode\<close>: \<open>decode n = Some img\<close> when frame number
  \<open>n\<close> fires \<open>onload\<close>, \<open>None\<close> when it fires \<open>onerror\<close>.  \<open>loadFrame\<close> is only called with
  \<open>1 \<le> frameNum \<le> frameCount\<close>, so the store is inside the array.
\<close>

definition loadFrame :: "(nat \<Rightarrow> image option) \<Rightarrow> nat \<Rightarrow> animator \<Rightarrow> animator \<times> load_error option" where
  "loadFrame decode frameNum s =
     (if slot (images s) (frameNum - 1) \<noteq> None then (s, None)
      else (case decode frameNum of
              None \<Rightarrow> (s, Some (FrameLoadError frameNum))
            | Some img \<Rightarrow>
                (s\<lparr>images := (images s)[frameNum - 1 := Some img],
                   loadedCount := loadedCount s + 1\<rparr>, None)))"

text \<open>
  \<open>Promise.all\<close> over the frames of one batch: every frame of the batch is attempted,
  the ones that decode are stored, and the batch is rejected when one fails (the model
  reports the lowest failing frame number of the batch).
\<close>

fun loadBatch :: "(nat \<Rightarrow> image option) \<Rightarrow> nat list \<Rightarrow> animator \<Rightarrow> animator \<times> load_error option" where
  "loadBatch decode [] s = (s, None)"
| "loadBatch decode (n # ns) s =
     (case loadFrame decode n s of
        (s1, e1) \<Rightarrow>
          (case loadBatch decode ns s1 of
             (s2, e2) \<Rightarrow> (s2, (case e1 of None \<Rightarrow> e2 | Some e \<Rightarrow> Some e))))"

definition updateProgress :: "rat \<Rightarrow> animator \<Rightarrow> animator" where
  "updateProgress percent s = s\<lparr>progressLog := progressLog s @ [percent]\<rparr>"

definition batchSize :: nat where
  "batchSize = 45"

text \<open>The \<open>for\<close> loop of \<open>loadAllFrames\<close>, from the current value of \<open>batch\<close>.\<close>

function loadBatches :: "(nat \<Rightarrow> image option) \<Rightarrow> nat \<Rightarrow> nat \<Rightarrow> animator \<Rightarrow> animator \<times> load_error option" where
  "loadBatches decode totalBatches batch s =
     (if batch < totalBatches then
        (let start = batch * batchSize + 1;
             end = min ((batch + 1) * batchSize) (frameCount s)
         in (case loadBatch decode [start ..< end + 1] s of
               (s1, Some e) \<Rightarrow> (s1, Some e)
             | (s1, None) \<Rightarrow>
                 loadBatches decode totalBatches (batch + 1)
                   (updateProgress (of_nat (batch + 1) / of_nat totalBatches) s1)))
      else (s, None))"
  by pat_completeness auto
termination
  by (relation "measure (\<lambda>(decode, totalBatches, batch, s). totalBatches - batch)") auto

declare loadBatches.simps [simp del]

text \<open>\<open>Math.ceil(this.frameCount / batchSize)\<close> on a frame count that is a natural number.\<close>

definition totalBatchesOf :: "nat \<Rightarrow> nat" where
  "totalBatchesOf n = (n + (batchSize - 1)) div batchSize"

definition loadAllFrames :: "(nat \<Rightarrow> image option) \<Rightarrow> animator \<Rightarrow> animator \<times> load_error option" where
  "loadAllFrames decode s = loadBatches decode (totalBatchesOf (frameCount s)) 0 s"

section \<open>Playback\<close>

text \<open>The host's frame callbacks: registering gives a fresh positive handle.\<close>

definition requestAnimationFrame :: "animator \<Rightarrow> animator" where
  "requestAnimationFrame s =
     (let h = rafCounter s + 1
      in s\<lparr>rafCounter := h, pending := pending s @ [h], animationId := Some h\<rparr>)"

definition cancelAnimationFrame :: "nat \<Rightarrow> animator \<Rightarrow> animator" where
  "cancelAnimationFrame h s = s\<lparr>pending := removeAll h (pending s)\<rparr>"

definition play :: "rat \<Rightarrow> animator \<Rightarrow> animator" where
  "play now s =
     (if isPlaying s \<or> hasError s \<or> isLoading s then s
      else requestAnimationFrame
             (s\<lparr>currentFrame := 0, hasPlayed := False, isPlaying := True,
                lastTime := Some (Fin now)\<rparr>))"

text \<open>\<open>Math.max(0, Math.min(startFrame, this.frameCount - 1))\<close> on an integer argument.\<close>

definition clampFrame :: "int \<Rightarrow> nat \<Rightarrow> nat" where
  "clampFrame startFrame n = nat (max 0 (min startFrame (int n - 1)))"

definition playFromFrame :: "int \<Rightarrow> rat \<Rightarrow> animator \<Rightarrow> animator" where
  "playFromFrame startFrame now s =
     (if isPlaying s \<or> hasError s \<or> isLoading s then s
      else requestAnimationFrame
             (s\<lparr>currentFrame := clampFrame startFrame (frameCount s), hasPlayed := False,
                isPlaying := True, lastTime := Some (Fin now)\<rparr>))"

definition stop :: "animator \<Rightarrow> animator" where
  "stop s =
     (let s1 = s\<lparr>isPlaying := False\<rparr>
      in (case animationId s1 of None \<Rightarrow> s1 | Some h \<Rightarrow> cancelAnimationFrame h s1))"

text \<open>
  \<open>renderFrame\<close>.  \<open>drawThrows\<close> says whether the drawing calls of this invocation raise;
  the \<open>catch\<close> then stops playback.  A frame that is drawn is recorded by its index.
\<close>

definition renderFrame :: "bool \<Rightarrow> animator \<Rightarrow> animator" where
  "renderFrame drawThrows s =
     (let s1 = (if \<not> playOnce s \<or> \<not> hasPlayed s \<or> loop s
                then s\<lparr>currentFrame := (currentFrame s + 1) mod frameCount s\<rparr> else s)
      in (case slot (images s1) (currentFrame s1) of
            None \<Rightarrow> s1
          | Some img \<Rightarrow>
              if drawThrows then stop s1
              else s1\<lparr>drawn := drawn s1 @ [currentFrame s1]\<rparr>))"

text \<open>\<open>timestamp - this.lastTime\<close>; with \<open>lastTime\<close> still \<open>undefined\<close> the difference is \<open>NaN\<close>.\<close>

fun elapsed :: "rat \<Rightarrow> dbl option \<Rightarrow> dbl" where
  "elapsed timestamp None = NaNd"
| "elapsed timestamp (Some l) = dsub timestamp l"

text \<open>\<open>animate(timestamp)\<close>.\<close>

definition animate :: "rat \<Rightarrow> bool \<Rightarrow> animator \<Rightarrow> animator" where
  "animate timestamp drawThrows s =
     (if \<not> isPlaying s then s
      else if playOnce s \<and> hasPlayed s then stop s
      else (let delta = elapsed timestamp (lastTime s) in
            if dgt delta (ddiv 1000 (fps s)) then
              (let s1 = renderFrame drawThrows s;
                   s2 = s1\<lparr>lastTime := Some (dsub timestamp (drem delta (ddiv 1000 (fps s1))))\<rparr>
               in if int (currentFrame s2) = int (frameCount s2) - 1 then
                    (let s3 = s2\<lparr>hasPlayed := True\<rparr>
                     in if playOnce s3 \<and> \<not> loop s3 then stop s3
                        else requestAnimationFrame s3)
                  else requestAnimationFrame s2)
            else requestAnimationFrame s))"

text \<open>
  One display refresh: the host takes the oldest registered callback off its list and
  calls \<open>animate\<close>; with nothing registered nothing runs.
\<close>

definition tick :: "rat \<times> bool \<Rightarrow> animator \<Rightarrow> animator" where
  "tick inp s =
     (case pending s of
        [] \<Rightarrow> s
      | h # rest \<Rightarrow> animate (fst inp) (snd inp) (s\<lparr>pending := rest\<rparr>))"

fun ticks :: "(rat \<times> bool) list \<Rightarrow> animator \<Rightarrow> animator" where
  "ticks [] s = s"
| "ticks (inp # inps) s = ticks inps (tick inp s)"

text \<open>Calling \<open>animate\<close> directly, whether or not a callback is registered.\<close>

fun animateAll :: "(rat \<times> bool) list \<Rightarrow> animator \<Rightarrow> animator" where
  "animateAll [] s = s"
| "animateAll (inp # inps) s = animateAll inps (animate (fst inp) (snd inp) s)"

section \<open>Sizing\<close>

text \<open>
  \<open>updateCanvasSize\<close> with the container's client size as parameters.  The canvas
  element turns the numbers assigned to its size into integers; the state records the
  numbers assigned.
\<close>

definition updateCanvasSize :: "nat \<Rightarrow> nat \<Rightarrow> animator \<Rightarrow> animator" where
  "updateCanvasSize containerWidth containerHeight s =
     (let widthRatio = ddiv (of_nat containerWidth) (of_nat (originalWidth s));
          heightRatio = ddiv (of_nat containerHeight) (of_nat (originalHeight s));
          sc = dmin widthRatio heightRatio
      in s\<lparr>scale := sc, canvasWidth := Some (dmul (of_nat (originalWidth s)) sc),
           canvasHeight := Some (dmul (of_nat (originalHeight s)) sc)\<rparr>)"

definition handleResize :: "nat \<Rightarrow> nat \<Rightarrow> bool \<Rightarrow> animator \<Rightarrow> animator" where
  "handleResize containerWidth containerHeight drawThrows s =
     (if originalWidth s = 0 \<or> originalHeight s = 0 then s
      else renderFrame drawThrows (updateCanvasSize containerWidth containerHeight s))"

section \<open>Initialisation\<close>

text \<open>\<open>error(...)\<close>: the message goes to the console and the flag is set.\<close>

definition error :: "animator \<Rightarrow> animator" where
  "error s = s\<lparr>hasError := True\<rparr>"

text \<open>
  \<open>init\<close> is called at the end of the constructor and suspends twice.  Up to its first
  \<open>await\<close> it only starts the fetch of frame 1, so while that fetch is under way the
  animator is in the state the constructor built.  \<open>init_firstFrame\<close> is the stretch from
  the arrival of frame 1 to the second \<open>await\<close>: \<open>naturalSize\<close> gives the natural width
  and height of a decoded image, the container's client size and
  \<open>performance.now()\<close> are parameters.  \<open>init_loaded\<close> is the stretch from the end of
  \<open>loadAllFrames\<close> on.  A rejected promise goes to the \<open>catch\<close>, which calls \<open>error\<close>.
\<close>

definition init_firstFrame ::
  "(nat \<Rightarrow> image option) \<Rightarrow> (image \<Rightarrow> nat \<times> nat) \<Rightarrow> nat \<Rightarrow> nat \<Rightarrow> rat \<Rightarrow> animator \<Rightarrow> animator" where
  "init_firstFrame decode naturalSize containerWidth containerHeight now s =
     (case decode 1 of
        None \<Rightarrow> error s
      | Some firstFrame \<Rightarrow>
          (let s1 = s\<lparr>originalWidth := fst (naturalSize firstFrame),
                       originalHeight := snd (naturalSize firstFrame)\<rparr>;
               s2 = updateCanvasSize containerWidth containerHeight s1
           in s2\<lparr>isLoading := True, loadStartTime := now\<rparr>))"

definition init_loaded :: "(nat \<Rightarrow> image option) \<Rightarrow> rat \<Rightarrow> animator \<Rightarrow> animator" where
  "init_loaded decode now s =
     (case loadAllFrames decode s of
        (s1, Some e) \<Rightarrow> error s1
      | (s1, None) \<Rightarrow>
          (let s2 = s1\<lparr>isLoading := False\<rparr>
           in if autoplay s2 then play now s2 else s2))"

section \<open>Notions used to state the properties\<close>

text \<open>The number of \<open>'/'\<close> characters a path ends with.\<close>

definition trailingSlashes :: "string \<Rightarrow> nat" where
  "trailingSlashes s = length (takeWhile (\<lambda>c. c = CHR ''/'') (rev s))"

text \<open>
  What it means for \<open>z\<close> to be the frame number \<open>n\<close> zero-padded to \<open>d\<close> digits: \<open>z\<close>
  consists of decimal digits, reads as \<open>n\<close>, has at least \<open>d\<close> characters, and has more
  than \<open>d\<close> only when none of them is a padding zero.
\<close>

definition isDigit :: "char \<Rightarrow> bool" where
  "isDigit c = (c \<in> set ''0123456789'')"

definition digitVal :: "char \<Rightarrow> nat" where
  "digitVal c = length (takeWhile (\<lambda>x. x \<noteq> c) ''0123456789'')"

definition decimalValue :: "string \<Rightarrow> nat" where
  "decimalValue z = foldl (\<lambda>acc c. 10 * acc + digitVal c) 0 z"

definition zeroPadded :: "nat \<Rightarrow> nat \<Rightarrow> string \<Rightarrow> bool" where
  "zeroPadded d n z =
     (list_all isDigit z \<and> decimalValue z = n \<and> z \<noteq> [] \<and> d \<le> length z \<and>
      (d < length z \<longrightarrow> length z = 1 \<or> hd z \<noteq> CHR ''0''))"

text \<open>
  The condition under which \<open>renderFrame\<close> leaves the index alone: a play-once run that
  has completed and does not loop.
\<close>

definition frozen :: "animator \<Rightarrow> bool" where
  "frozen s = (playOnce s \<and> hasPlayed s \<and> \<not> loop s)"

text \<open>
  The test of \<open>animate\<close> on a refresh at \<open>ts\<close>, and the number of refreshes of a run on
  which it succeeds.
\<close>

definition due :: "rat \<Rightarrow> animator \<Rightarrow> bool" where
  "due ts s = dgt (elapsed ts (lastTime s)) (ddiv 1000 (fps s))"

fun renders :: "(rat \<times> bool) list \<Rightarrow> animator \<Rightarrow> nat" where
  "renders [] s = 0"
| "renders (inp # inps) s = (if due (fst inp) s then 1 else 0) + renders inps (tick inp s)"

text \<open>The fractions \<open>updateProgress\<close> was called with between the states \<open>s\<close> and \<open>s'\<close>.\<close>

definition reports :: "animator \<Rightarrow> animator \<Rightarrow> rat list" where
  "reports s s' = drop (length (progressLog s)) (progressLog s')"

section \<open>A concrete session\<close>

text \<open>
  The options \<open>initAll\<close> builds for a canvas with \<open>data-frames="anim"\<close>, \<open>data-fps="25"\<close>
  and the given count and flags, and the animator after construction and a load in
  which every frame decodes.
\<close>

definition demoOptions :: "rat \<Rightarrow> bool \<Rightarrow> bool \<Rightarrow> options" where
  "demoOptions n lp po =
     \<lparr> opt_canvas = Some 0, opt_prefix = Some ''anim'', opt_frameCount = Num n,
       opt_imagePath = Some ''./media/imgOpt/'', opt_digits = Num 3, opt_fps = Num 25,
       opt_loop = Some lp, opt_autoplay = Some False, opt_debug = Some False,
       opt_playOnce = Some po \<rparr>"

definition demoAnimator :: "rat \<Rightarrow> bool \<Rightarrow> bool \<Rightarrow> animator" where
  "demoAnimator n lp po = fst (loadAllFrames Some (projr (FrameAnimator (demoOptions n lp po))))"

text \<open>The same animator once \<open>init\<close> has taken the size of an 800 by 400 first frame.\<close>

definition demoSized :: "rat \<Rightarrow> bool \<Rightarrow> bool \<Rightarrow> animator" where
  "demoSized n lp po = (demoAnimator n lp po)\<lparr>originalWidth := 800, originalHeight := 400\<rparr>"

section \<open>Paths\<close>

subsection \<open>Decimal digits\<close>

lemma mod10_cases:
  "(d::nat) mod 10 = 0 \<or> d mod 10 = 1 \<or> d mod 10 = 2 \<or> d mod 10 = 3 \<or> d mod 10 = 4 \<or>
   d mod 10 = 5 \<or> d mod 10 = 6 \<or> d mod 10 = 7 \<or> d mod 10 = 8 \<or> d mod 10 = 9"
  by arith

lemma digitChar_isDigit: "isDigit (digitChar d)"
  using mod10_cases [of d] by (elim disjE) (simp_all add: isDigit_def digitChar_def)

lemma digitVal_digitChar: "digitVal (digitChar d) = d mod 10"
  using mod10_cases [of d] by (elim disjE) (simp_all add: digitVal_def digitChar_def)

lemma digitChar_zero_iff: "digitChar d = CHR ''0'' \<longleftrightarrow> d mod 10 = 0"
  using mod10_cases [of d] by (elim disjE) (simp_all add: digitChar_def)

lemma toString_nonempty: "toString n \<noteq> []"
  by (subst toString.simps) simp

lemma toString_digits: "list_all isDigit (toString n)"
proof (induction n rule: toString.induct)
  case (1 n)
  show ?case
    by (subst toString.simps) (use 1 in \<open>simp add: digitChar_isDigit\<close>)
qed

lemma decimalValue_snoc: "decimalValue (z @ [c]) = 10 * decimalValue z + digitVal c"
  by (simp add: decimalValue_def)

lemma decimalValue_toString: "decimalValue (toString n) = n"
proof (induction n rule: toString.induct)
  case (1 n)
  show ?case
  proof (cases "n < 10")
    case True
    then show ?thesis
      by (subst toString.simps) (simp add: decimalValue_def digitVal_digitChar)
  next
    case False
    with 1 show ?thesis
      by (subst toString.simps) (simp add: decimalValue_snoc digitVal_digitChar)
  qed
qed

lemma toString_no_leading_zero: "length (toString n) = 1 \<or> hd (toString n) \<noteq> CHR ''0''"
proof (induction n rule: toString.induct)
  case (1 n)
  show ?case
  proof (cases "n < 10")
    case True
    then show ?thesis by (subst toString.simps) simp
  next
    case False
    then have pos: "0 < n div 10" by simp
    have "hd (toString (n div 10)) \<noteq> CHR ''0''"
    proof (cases "n div 10 < 10")
      case True
      then have "toString (n div 10) = [digitChar (n div 10)]" by (subst toString.simps) simp
      with True pos show ?thesis by (simp add: digitChar_zero_iff)
    next
      case F2: False
      then have "toString (n div 10) = toString (n div 10 div 10) @ [digitChar (n div 10 mod 10)]"
        by (subst toString.simps) simp
      then have "length (toString (n div 10)) \<noteq> 1" using toString_nonempty [of "n div 10 div 10"] by simp
      with 1 False show ?thesis by blast
    qed
    moreover have "toString n = toString (n div 10) @ [digitChar (n mod 10)]"
      using False by (subst toString.simps) simp
    ultimately show ?thesis using toString_nonempty [of "n div 10"] by simp
  qed
qed

lemma decimalValue_zeros: "decimalValue (replicate k CHR ''0'' @ z) = decimalValue z"
proof -
  have "foldl (\<lambda>acc c. 10 * acc + digitVal c) 0 (replicate k CHR ''0'') = 0"
    by (induction k) (simp_all add: digitVal_def)
  then show ?thesis by (simp add: decimalValue_def)
qed

lemma padStart_zeroPadded: "zeroPadded (nat \<lfloor>d\<rfloor>) n (padStart d CHR ''0'' (toString n))"
proof -
  let ?t = "toString n" and ?k = "nat \<lfloor>d\<rfloor>"
  have a: "list_all isDigit (padStart d CHR ''0'' ?t)"
  proof -
    have "list_all isDigit (replicate (nat \<lfloor>d\<rfloor> - length ?t) CHR ''0'')"
      by (simp add: list_all_iff isDigit_def)
    with toString_digits [of n] show ?thesis by (simp add: padStart_def)
  qed
  have b: "decimalValue (padStart d CHR ''0'' ?t) = n"
    by (simp add: padStart_def decimalValue_zeros decimalValue_toString)
  have c: "padStart d CHR ''0'' ?t \<noteq> []" and d: "?k \<le> length (padStart d CHR ''0'' ?t)"
    using toString_nonempty [of n] by (simp_all add: padStart_def)
  have e: "?k < length (padStart d CHR ''0'' ?t) \<longrightarrow>
      length (padStart d CHR ''0'' ?t) = 1 \<or> hd (padStart d CHR ''0'' ?t) \<noteq> CHR ''0''"
  proof
    assume "?k < length (padStart d CHR ''0'' ?t)"
    then have "?k - length ?t = 0" by (simp add: padStart_def)
    then have "padStart d CHR ''0'' ?t = ?t" by (simp add: padStart_def)
    then show "length (padStart d CHR ''0'' ?t) = 1 \<or> hd (padStart d CHR ''0'' ?t) \<noteq> CHR ''0''"
      using toString_no_leading_zero [of n] by simp
  qed
  from a b c d e show ?thesis unfolding zeroPadded_def by blast
qed

lemma pad5: "padStart 3 CHR ''0'' (toString 5) = ''005''" by code_simp
lemma pad90: "padStart 3 CHR ''0'' (toString 90) = ''090''" by code_simp

subsection \<open>\<open>normalizePath\<close>\<close>

text \<open>
  C8 (as the specification states it, refuted): a base path that already ends in several
  separators is returned as it is, so it does not end in exactly one.
\<close>

theorem normalizePath_keeps_double_slash:
  "normalizePath ''./media//'' = ''./media//'' \<and> trailingSlashes (normalizePath ''./media//'') = 2"
  by (simp add: normalizePath_def endsWith_def trailingSlashes_def)

text \<open>
  C8 (amended): \<open>normalizePath\<close> either returns the path unchanged or appends one \<open>'/'\<close>;
  the result ends with as many separators as the input, and with one when the input
  ends with none.  So inputs ending in zero or one \<open>'/'\<close> come out with exactly one, and
  inputs ending in several keep them all.
\<close>

theorem normalizePath_trailing:
  "trailingSlashes (normalizePath p) = max 1 (trailingSlashes p)
   \<and> endsWith (normalizePath p) CHR ''/''
   \<and> (normalizePath p = p \<or> normalizePath p = p @ ''/'')"
proof (cases p rule: rev_cases)
  case Nil
  then show ?thesis by (simp add: normalizePath_def endsWith_def trailingSlashes_def)
next
  case (snoc ys y)
  then show ?thesis by (simp add: normalizePath_def endsWith_def trailingSlashes_def)
qed

subsection \<open>\<open>getFramePath\<close>\<close>

text \<open>
  C7: the path of frame \<open>n\<close> is the base path, the prefix, \<open>'/'\<close>, the prefix again, the
  frame number zero-padded to \<open>digits\<close> and \<open>.webp\<close>; with three digits and the prefix
  \<open>anim\<close>, frame 5 is \<open>{base}anim/anim005.webp\<close> and frame 90 is \<open>{base}anim/anim090.webp\<close>.
\<close>

theorem getFramePath_exact:
  "getFramePath s n =
     imagePath s @ prefix s @ ''/'' @ prefix s @ padStart (digits s) CHR ''0'' (toString n) @ ''.webp''
   \<and> zeroPadded (nat \<lfloor>digits s\<rfloor>) n (padStart (digits s) CHR ''0'' (toString n))
   \<and> getFramePath (s\<lparr>prefix := ''anim'', digits := 3\<rparr>) 5 = imagePath s @ ''anim/anim005.webp''
   \<and> getFramePath (s\<lparr>prefix := ''anim'', digits := 3\<rparr>) 90 = imagePath s @ ''anim/anim090.webp''"
  by (simp add: getFramePath_def padStart_zeroPadded pad5 pad90)

theorem getFramePath_exact_witness:
  "getFramePath (demoAnimator 90 True False) 7 = ''./media/imgOpt/anim/anim007.webp''
   \<and> zeroPadded 3 7 ''007''"
proof -
  have a: "padStart (digits (demoAnimator 90 True False)) CHR ''0'' (toString 7) = ''007''"
    by code_simp
  have b: "nat \<lfloor>digits (demoAnimator 90 True False)\<rfloor> = 3" by code_simp
  have c: "imagePath (demoAnimator 90 True False) = ''./media/imgOpt/''" by code_simp
  have d: "prefix (demoAnimator 90 True False) = ''anim''" by code_simp
  show ?thesis using getFramePath_exact [of "demoAnimator 90 True False" 7]
    unfolding a b c d by simp
qed

section \<open>Double arithmetic on integers\<close>

text \<open>Integers below \<open>2^53\<close> in magnitude are doubles: rounding returns them unchanged.\<close>

lemma pow2_nonpos: "e \<le> 0 \<Longrightarrow> pow2 e = 1 / 2 ^ nat (- e)"
  by (cases "e = 0") (simp_all add: pow2_def)

lemma roundHalfEven_of_int: "roundHalfEven (of_int m) = m"
  by (simp add: roundHalfEven_def)

lemma ilog2_int_le: "0 < n \<Longrightarrow> ilog2 (of_int n) \<le> bitlen n - 1"
proof -
  have b1: "bitlen 1 = 1" by (simp add: bitlen_alt_def)
  show ?thesis by (simp add: ilog2_def quotient_of_int Let_def b1)
qed

lemma toDouble_pos_int:
  assumes "0 < n" "n < 2 ^ 53"
  shows "toDouble (of_int n) = Fin (of_int n)"
proof -
  have "bitlen n \<le> 53" using assms(2) by (simp add: bitlen_le_iff_power)
  with ilog2_int_le [OF assms(1)] have le: "ilog2 (of_int n) \<le> 52" by simp
  define e where "e = max (ilog2 (of_int n :: rat)) (- 1022)"
  define k where "k = nat (52 - e)"
  have e: "e - 52 \<le> 0" "nat (- (e - 52)) = k" using le by (simp_all add: e_def k_def)
  have ulp: "pow2 (e - 52) = 1 / 2 ^ k" using pow2_nonpos [OF e(1)] e(2) by simp
  have q: "(of_int n :: rat) / pow2 (e - 52) = of_int (n * 2 ^ k)" by (simp add: ulp)
  have r: "of_int (roundHalfEven ((of_int n :: rat) / pow2 (e - 52))) * pow2 (e - 52) = (of_int n :: rat)"
    unfolding q roundHalfEven_of_int by (simp add: ulp)
  have nov: "\<not> 1024 \<le> ilog2 (of_int n :: rat)" using le by simp
  have pos: "(0::rat) < of_int n" using assms(1) by simp
  then have ab: "\<bar>of_int n :: rat\<bar> = of_int n" by simp
  show ?thesis
    using pos nov r unfolding toDouble_def ab Let_def e_def [symmetric]
    by simp
qed

lemma toDouble_neg: "toDouble (- x) = (case toDouble x of Fin r \<Rightarrow> Fin (- r) | PosInf \<Rightarrow> NegInf
    | NegInf \<Rightarrow> PosInf | NaNd \<Rightarrow> NaNd)"
  by (cases "x = 0"; cases "0 < x") (auto simp add: toDouble_def Let_def)

lemma toDouble_int:
  assumes "\<bar>n\<bar> < 2 ^ 53"
  shows "toDouble (of_int n) = Fin (of_int n)"
proof (cases "n = 0")
  case True
  then show ?thesis by (simp add: toDouble_def)
next
  case False
  show ?thesis
  proof (cases "0 < n")
    case True
    with assms show ?thesis by (intro toDouble_pos_int) simp_all
  next
    case F: False
    with False assms have "0 < - n" "- n < 2 ^ 53" by simp_all
    then have "toDouble (of_int (- n)) = Fin (of_int (- n))" by (rule toDouble_pos_int)
    then have "toDouble (- (- of_int n)) = Fin (of_int n)"
      by (subst toDouble_neg) simp
    then show ?thesis by simp
  qed
qed

section \<open>Construction\<close>

lemma validArrayLength_neg: "q < 0 \<or> of_int \<lfloor>q\<rfloor> \<noteq> q \<Longrightarrow> \<not> validArrayLength q"
  by (auto simp: validArrayLength_def)

text \<open>
  C10 (as the specification states it, refuted): a negative frame count passes the
  falsiness check of line 5 but is not accepted; the allocation of the slot array on
  line 19 raises, and no animator is constructed.
\<close>

theorem constructor_rejects_negative_frameCount:
  "FrameAnimator (demoOptions (-3) True False) = Inl InvalidArrayLength"
  by (simp add: FrameAnimator_def demoOptions_def validArrayLength_def)

text \<open>
  C10 (amended): with a canvas and a non-empty prefix, a frame count of 0 is rejected with
  the missing-frame-count error; a negative or non-integer frame count passes that check
  and construction then fails with the invalid-array-length error; and with a usable
  frame count, each of the falsy values \<open>fps = 0\<close>, \<open>digits = 0\<close> and \<open>imagePath = ""\<close>, on its
  own and whatever the other options are, is replaced by 24, 3 and the default base
  directory, while the other options keep the values given.
\<close>

theorem constructor_falsiness:
  "FrameAnimator (opts\<lparr>opt_canvas := Some cv, opt_prefix := Some (c # pf), opt_frameCount := Num 0\<rparr>)
     = Inl MissingFrameCount
   \<and> (q \<noteq> 0 \<and> (q < 0 \<or> of_int \<lfloor>q\<rfloor> \<noteq> q) \<longrightarrow>
        FrameAnimator (opts\<lparr>opt_canvas := Some cv, opt_prefix := Some (c # pf), opt_frameCount := Num q\<rparr>)
          = Inl InvalidArrayLength)
   \<and> (n \<noteq> 0 \<and> validArrayLength n \<longrightarrow>
        (\<exists>s. FrameAnimator (opts\<lparr>opt_canvas := Some cv, opt_prefix := Some (c # pf),
                 opt_frameCount := Num n, opt_fps := Num 0\<rparr>) = Inr s
             \<and> frameCount s = nat \<lfloor>n\<rfloor> \<and> fps s = 24
             \<and> digits s = or_default (opt_digits opts) 3
             \<and> imagePath s = normalizePath (path_or_default (opt_imagePath opts)))
      \<and> (\<exists>s. FrameAnimator (opts\<lparr>opt_canvas := Some cv, opt_prefix := Some (c # pf),
                 opt_frameCount := Num n, opt_digits := Num 0\<rparr>) = Inr s
             \<and> frameCount s = nat \<lfloor>n\<rfloor> \<and> digits s = 3
             \<and> fps s = or_default (opt_fps opts) 24
             \<and> imagePath s = normalizePath (path_or_default (opt_imagePath opts)))
      \<and> (\<exists>s. FrameAnimator (opts\<lparr>opt_canvas := Some cv, opt_prefix := Some (c # pf),
                 opt_frameCount := Num n, opt_imagePath := Some []\<rparr>) = Inr s
             \<and> frameCount s = nat \<lfloor>n\<rfloor> \<and> imagePath s = defaultImagePath
             \<and> fps s = or_default (opt_fps opts) 24
             \<and> digits s = or_default (opt_digits opts) 3))"
  by (simp add: FrameAnimator_def validArrayLength_neg normalizePath_def endsWith_def defaultImagePath_def)

theorem constructor_falsiness_witness:
  "FrameAnimator (demoOptions 0 True False) = Inl MissingFrameCount
   \<and> FrameAnimator (demoOptions (-3) True False) = Inl InvalidArrayLength
   \<and> FrameAnimator (demoOptions (5 / 2) True False) = Inl InvalidArrayLength
   \<and> (\<exists>s. FrameAnimator ((demoOptions 90 True False)\<lparr>opt_digits := Num 5, opt_fps := Num 0\<rparr>) = Inr s
        \<and> frameCount s = 90 \<and> fps s = 24 \<and> digits s = 5 \<and> imagePath s = ''./media/imgOpt/'')
   \<and> (\<exists>s. FrameAnimator ((demoOptions 90 True False)\<lparr>opt_digits := Num 0\<rparr>) = Inr s
        \<and> frameCount s = 90 \<and> digits s = 3 \<and> fps s = 25)
   \<and> (\<exists>s. FrameAnimator ((demoOptions 90 True False)\<lparr>opt_imagePath := Some []\<rparr>) = Inr s
        \<and> frameCount s = 90 \<and> imagePath s = ''./media/imgOpt/'' \<and> fps s = 25 \<and> digits s = 3)"
proof -
  have v: "validArrayLength 90" by (simp add: validArrayLength_def)
  have f: "\<lfloor>5 / 2 :: rat\<rfloor> = 2" by linarith
  have n: "normalizePath ''./media/imgOpt/'' = ''./media/imgOpt/''"
    by (simp add: normalizePath_def endsWith_def)
  note A = constructor_falsiness [where opts = "demoOptions 0 True False" and cv = 0
            and c = "CHR ''a''" and pf = "''nim''" and q = "-3" and n = 90]
  note B = constructor_falsiness [where opts = "demoOptions 0 True False" and cv = 0
            and c = "CHR ''a''" and pf = "''nim''" and q = "5/2" and n = 90]
  note C = constructor_falsiness [where opts = "(demoOptions 0 True False)\<lparr>opt_digits := Num 5\<rparr>"
            and cv = 0 and c = "CHR ''a''" and pf = "''nim''" and q = "-3" and n = 90]
  have 1: "FrameAnimator (demoOptions 0 True False) = Inl MissingFrameCount"
    using A by (simp add: demoOptions_def)
  have 2: "FrameAnimator (demoOptions (-3) True False) = Inl InvalidArrayLength"
    using A by (simp add: demoOptions_def)
  have 3: "FrameAnimator (demoOptions (5 / 2) True False) = Inl InvalidArrayLength"
    using B f by (simp add: demoOptions_def)
  have 4: "\<exists>s. FrameAnimator ((demoOptions 90 True False)\<lparr>opt_digits := Num 5, opt_fps := Num 0\<rparr>) = Inr s
        \<and> frameCount s = 90 \<and> fps s = 24 \<and> digits s = 5 \<and> imagePath s = ''./media/imgOpt/''"
    using C v n by (auto simp add: demoOptions_def defaultImagePath_def)
  have 5: "\<exists>s. FrameAnimator ((demoOptions 90 True False)\<lparr>opt_digits := Num 0\<rparr>) = Inr s
        \<and> frameCount s = 90 \<and> digits s = 3 \<and> fps s = 25"
    using A v n by (auto simp add: demoOptions_def defaultImagePath_def)
  have 6: "\<exists>s. FrameAnimator ((demoOptions 90 True False)\<lparr>opt_imagePath := Some []\<rparr>) = Inr s
        \<and> frameCount s = 90 \<and> imagePath s = ''./media/imgOpt/'' \<and> fps s = 25 \<and> digits s = 3"
    using A v n by (auto simp add: demoOptions_def defaultImagePath_def)
  from 1 2 3 4 5 6 show ?thesis by blast
qed

section \<open>Playback\<close>

subsection \<open>What each method leaves unchanged\<close>

lemma stop_fields:
  "currentFrame (stop s) = currentFrame s" "frameCount (stop s) = frameCount s"
  "drawn (stop s) = drawn s" "isPlaying (stop s) = False" "lastTime (stop s) = lastTime s"
  "hasPlayed (stop s) = hasPlayed s" "playOnce (stop s) = playOnce s" "loop (stop s) = loop s"
  "fps (stop s) = fps s" "images (stop s) = images s" "rafCounter (stop s) = rafCounter s"
  by (simp_all add: stop_def cancelAnimationFrame_def Let_def split: option.splits)

lemma raf_fields:
  "currentFrame (requestAnimationFrame s) = currentFrame s"
  "frameCount (requestAnimationFrame s) = frameCount s"
  "drawn (requestAnimationFrame s) = drawn s"
  "isPlaying (requestAnimationFrame s) = isPlaying s"
  "lastTime (requestAnimationFrame s) = lastTime s"
  "hasPlayed (requestAnimationFrame s) = hasPlayed s"
  "playOnce (requestAnimationFrame s) = playOnce s"
  "loop (requestAnimationFrame s) = loop s"
  "fps (requestAnimationFrame s) = fps s"
  "images (requestAnimationFrame s) = images s"
  "pending (requestAnimationFrame s) = pending s @ [rafCounter s + 1]"
  "animationId (requestAnimationFrame s) = Some (rafCounter s + 1)"
  by (simp_all add: requestAnimationFrame_def Let_def)

lemma renderFrame_fields:
  "frameCount (renderFrame thr s) = frameCount s"
  "lastTime (renderFrame thr s) = lastTime s"
  "hasPlayed (renderFrame thr s) = hasPlayed s"
  "playOnce (renderFrame thr s) = playOnce s"
  "loop (renderFrame thr s) = loop s"
  "fps (renderFrame thr s) = fps s"
  "images (renderFrame thr s) = images s"
  "rafCounter (renderFrame thr s) = rafCounter s"
  by (simp_all add: renderFrame_def Let_def stop_fields split: option.splits)

lemma renderFrame_currentFrame:
  "currentFrame (renderFrame thr s) =
     (if frozen s then currentFrame s else (currentFrame s + 1) mod frameCount s)"
  by (auto simp add: renderFrame_def frozen_def Let_def stop_fields split: option.splits)

lemma renderFrame_drawn:
  "drawn (renderFrame thr s) =
     (if slot (images s) (currentFrame (renderFrame thr s)) \<noteq> None \<and> \<not> thr
      then drawn s @ [currentFrame (renderFrame thr s)] else drawn s)"
  by (simp add: renderFrame_def Let_def stop_fields split: option.splits)

lemma renderFrame_isPlaying:
  "isPlaying (renderFrame thr s) =
     (isPlaying s \<and> \<not> (thr \<and> slot (images s) (currentFrame (renderFrame thr s)) \<noteq> None))"
  by (auto simp add: renderFrame_def Let_def stop_fields split: option.splits)

lemma renderFrame_empty_slot:
  "\<not> frozen s \<Longrightarrow> slot (images s) ((currentFrame s + 1) mod frameCount s) = None \<Longrightarrow>
   renderFrame thr s = s\<lparr>currentFrame := (currentFrame s + 1) mod frameCount s\<rparr>"
  by (auto simp add: renderFrame_def frozen_def Let_def)

lemma js_rem_bounds:
  assumes "0 < b" "b < a"
  shows "0 \<le> js_rem a b" "js_rem a b < b"
proof -
  have "0 < a" using assms by simp
  then have "0 < a / b" using assms(1) by simp
  then have q: "\<not> a / b < 0" by simp
  have lo: "of_int \<lfloor>a / b\<rfloor> * b \<le> a" using assms(1) by (rule floor_divide_lower)
  have hi: "a < (of_int \<lfloor>a / b\<rfloor> + 1) * b" using assms(1) by (rule floor_divide_upper)
  show "0 \<le> js_rem a b" using q lo by (simp add: js_rem_def mult.commute)
  show "js_rem a b < b" using q hi by (simp add: js_rem_def algebra_simps)
qed

lemma animate_not_playing: "\<not> isPlaying s \<Longrightarrow> animate ts thr s = s"
  by (simp add: animate_def)

lemma animate_done:
  "isPlaying s \<Longrightarrow> playOnce s \<Longrightarrow> hasPlayed s \<Longrightarrow> animate ts thr s = stop s"
  by (simp add: animate_def)

lemma animate_wait:
  "isPlaying s \<Longrightarrow> \<not> (playOnce s \<and> hasPlayed s) \<Longrightarrow>
   \<not> dgt (elapsed ts (lastTime s)) (ddiv 1000 (fps s)) \<Longrightarrow>
   animate ts thr s = requestAnimationFrame s"
  by (auto simp add: animate_def Let_def)

lemma animate_render:
  "isPlaying s \<Longrightarrow> \<not> (playOnce s \<and> hasPlayed s) \<Longrightarrow>
   dgt (elapsed ts (lastTime s)) (ddiv 1000 (fps s)) \<Longrightarrow>
   animate ts thr s =
     (let s2 = (renderFrame thr s)\<lparr>lastTime :=
                 Some (dsub ts (drem (elapsed ts (lastTime s)) (ddiv 1000 (fps s))))\<rparr>
      in if int (currentFrame s2) = int (frameCount s) - 1
         then (if playOnce s \<and> \<not> loop s then stop (s2\<lparr>hasPlayed := True\<rparr>)
               else requestAnimationFrame (s2\<lparr>hasPlayed := True\<rparr>))
         else requestAnimationFrame s2)"
  by (auto simp add: animate_def Let_def renderFrame_fields)

lemma not_frozen: "\<not> (playOnce s \<and> hasPlayed s) \<Longrightarrow> \<not> frozen s"
  by (auto simp add: frozen_def)

lemma renderFrame_drawn_advance:
  "\<not> frozen s \<Longrightarrow>
   drawn (renderFrame thr s) =
     (if slot (images s) ((currentFrame s + 1) mod frameCount s) \<noteq> None \<and> \<not> thr
      then drawn s @ [(currentFrame s + 1) mod frameCount s] else drawn s)"
  using renderFrame_drawn [of thr s] by (simp add: renderFrame_currentFrame)

lemma animate_render_fields:
  assumes "isPlaying s" "\<not> (playOnce s \<and> hasPlayed s)"
    "dgt (elapsed ts (lastTime s)) (ddiv 1000 (fps s))"
  shows "currentFrame (animate ts thr s) = (currentFrame s + 1) mod frameCount s"
    and "lastTime (animate ts thr s)
          = Some (dsub ts (drem (elapsed ts (lastTime s)) (ddiv 1000 (fps s))))"
    and "drawn (animate ts thr s) =
          (if slot (images s) ((currentFrame s + 1) mod frameCount s) \<noteq> None \<and> \<not> thr
           then drawn s @ [(currentFrame s + 1) mod frameCount s] else drawn s)"
    and "frameCount (animate ts thr s) = frameCount s"
    and "fps (animate ts thr s) = fps s"
    and "playOnce (animate ts thr s) = playOnce s"
    and "loop (animate ts thr s) = loop s"
proof -
  note nf = not_frozen [OF assms(2)]
  note r = animate_render [OF assms]
  have cf: "currentFrame (renderFrame thr s) = (currentFrame s + 1) mod frameCount s"
    using nf by (simp add: renderFrame_currentFrame)
  show "currentFrame (animate ts thr s) = (currentFrame s + 1) mod frameCount s"
    by (simp add: r Let_def stop_fields raf_fields cf)
  show "lastTime (animate ts thr s)
          = Some (dsub ts (drem (elapsed ts (lastTime s)) (ddiv 1000 (fps s))))"
    by (simp add: r Let_def stop_fields raf_fields)
  show "drawn (animate ts thr s) =
          (if slot (images s) ((currentFrame s + 1) mod frameCount s) \<noteq> None \<and> \<not> thr
           then drawn s @ [(currentFrame s + 1) mod frameCount s] else drawn s)"
    by (simp add: r Let_def stop_fields raf_fields renderFrame_drawn_advance [OF nf])
  show "frameCount (animate ts thr s) = frameCount s"
    by (simp add: r Let_def stop_fields raf_fields renderFrame_fields)
  show "fps (animate ts thr s) = fps s"
    by (simp add: r Let_def stop_fields raf_fields renderFrame_fields)
  show "playOnce (animate ts thr s) = playOnce s"
    by (simp add: r Let_def stop_fields raf_fields renderFrame_fields)
  show "loop (animate ts thr s) = loop s"
    by (simp add: r Let_def stop_fields raf_fields renderFrame_fields)
qed

lemma stop_pending: "set (pending (stop s)) \<subseteq> set (pending s)"
  by (auto simp add: stop_def cancelAnimationFrame_def Let_def split: option.splits)

lemma renderFrame_pending: "set (pending (renderFrame thr s)) \<subseteq> set (pending s)"
  by (auto simp add: renderFrame_def stop_def cancelAnimationFrame_def Let_def split: option.splits)

lemma animateAll_not_playing: "\<not> isPlaying s \<Longrightarrow> animateAll inps s = s"
  by (induction inps) (simp_all add: animate_not_playing)

lemma tick_not_playing: "\<not> isPlaying s \<Longrightarrow> \<exists>p. tick inp s = s\<lparr>pending := p\<rparr>"
proof (cases "pending s")
  case Nil
  then have "tick inp s = s\<lparr>pending := []\<rparr>" by (simp add: tick_def)
  then show ?thesis by blast
next
  case (Cons h rest)
  assume "\<not> isPlaying s"
  then have "tick inp s = s\<lparr>pending := rest\<rparr>"
    using Cons by (simp add: tick_def animate_not_playing)
  then show ?thesis by blast
qed

lemma ticks_not_playing: "\<not> isPlaying s \<Longrightarrow> \<exists>p. ticks inps s = s\<lparr>pending := p\<rparr>"
proof (induction inps arbitrary: s)
  case Nil
  have "s = s\<lparr>pending := pending s\<rparr>" by simp
  then show ?case by (metis ticks.simps(1))
next
  case (Cons inp inps)
  from tick_not_playing [OF Cons.prems] obtain p1 where p1: "tick inp s = s\<lparr>pending := p1\<rparr>"
    by blast
  have "\<not> isPlaying (s\<lparr>pending := p1\<rparr>)" using Cons.prems by simp
  from Cons.IH [OF this] obtain p where "ticks inps (s\<lparr>pending := p1\<rparr>) = s\<lparr>pending := p1\<rparr>\<lparr>pending := p\<rparr>"
    by blast
  then have "ticks (inp # inps) s = s\<lparr>pending := p\<rparr>" by (simp add: p1)
  then show ?case by blast
qed

lemma tick_animate:
  "pending s \<noteq> [] \<Longrightarrow> tick inp s = animate (fst inp) (snd inp) (s\<lparr>pending := tl (pending s)\<rparr>)"
  by (cases "pending s") (simp_all add: tick_def)

lemma animate_live:
  assumes "isPlaying s" "\<not> playOnce s"
  shows "isPlaying (animate ts False s) \<and> pending (animate ts False s) \<noteq> []
    \<and> \<not> playOnce (animate ts False s) \<and> frameCount (animate ts False s) = frameCount s
    \<and> currentFrame (animate ts False s)
        = (if due ts s then (currentFrame s + 1) mod frameCount s else currentFrame s)"
proof -
  have np: "\<not> (playOnce s \<and> hasPlayed s)" using assms(2) by simp
  show ?thesis
  proof (cases "due ts s")
    case False
    then have w: "\<not> dgt (elapsed ts (lastTime s)) (ddiv 1000 (fps s))" by (simp add: due_def)
    show ?thesis using assms False by (simp add: animate_wait [OF assms(1) np w] raf_fields)
  next
    case True
    then have r: "dgt (elapsed ts (lastTime s)) (ddiv 1000 (fps s))" by (simp add: due_def)
    have rp: "isPlaying (renderFrame False s)" using assms(1) by (simp add: renderFrame_isPlaying)
    show ?thesis
      using assms rp not_frozen [OF np] True
      by (simp add: animate_render [OF assms(1) np r] Let_def raf_fields
          renderFrame_fields renderFrame_currentFrame)
  qed
qed

lemma animate_render_isPlaying:
  assumes "isPlaying s" "\<not> (playOnce s \<and> hasPlayed s)"
    "dgt (elapsed ts (lastTime s)) (ddiv 1000 (fps s))"
  shows "isPlaying (animate ts thr s) =
          (isPlaying (renderFrame thr s)
           \<and> \<not> (int ((currentFrame s + 1) mod frameCount s) = int (frameCount s) - 1
                \<and> playOnce s \<and> \<not> loop s))"
proof -
  have cf: "currentFrame (renderFrame thr s) = (currentFrame s + 1) mod frameCount s"
    using not_frozen [OF assms(2)] by (simp add: renderFrame_currentFrame)
  show ?thesis
    by (simp add: animate_render [OF assms] Let_def stop_fields raf_fields cf)
qed

lemma renderFrame_updateCanvasSize:
  "renderFrame thr (updateCanvasSize cw ch s) =
     (renderFrame thr s)\<lparr>scale := scale (updateCanvasSize cw ch s),
        canvasWidth := canvasWidth (updateCanvasSize cw ch s),
        canvasHeight := canvasHeight (updateCanvasSize cw ch s)\<rparr>"
  by (auto simp add: renderFrame_def updateCanvasSize_def stop_def cancelAnimationFrame_def
      Let_def split: option.splits)

lemma handleResize_fields:
  assumes "originalWidth s \<noteq> 0" "originalHeight s \<noteq> 0"
  shows "currentFrame (handleResize cw ch thr s) = currentFrame (renderFrame thr s)"
    and "drawn (handleResize cw ch thr s) = drawn (renderFrame thr s)"
    and "isPlaying (handleResize cw ch thr s) = isPlaying (renderFrame thr s)"
    and "hasPlayed (handleResize cw ch thr s) = hasPlayed s"
    and "playOnce (handleResize cw ch thr s) = playOnce s"
    and "loop (handleResize cw ch thr s) = loop s"
    and "lastTime (handleResize cw ch thr s) = lastTime s"
    and "fps (handleResize cw ch thr s) = fps s"
    and "frameCount (handleResize cw ch thr s) = frameCount s"
    and "images (handleResize cw ch thr s) = images s"
  using assms
  by (simp_all add: handleResize_def renderFrame_updateCanvasSize renderFrame_fields)

subsection \<open>\<open>play\<close> and \<open>playFromFrame\<close> under their guard\<close>

text \<open>
  C6 (as the specification states it, refuted): while frame 1 is being fetched the
  animator is in the state the constructor built, with every slot empty and the loading
  flag not yet set; there \<open>play\<close> and \<open>playFromFrame\<close> start playback.
\<close>

theorem play_starts_during_first_frame_fetch:
  "images (projr (FrameAnimator (demoOptions 3 True False))) = [None, None, None]
   \<and> loadedCount (projr (FrameAnimator (demoOptions 3 True False))) = 0
   \<and> \<not> isLoading (projr (FrameAnimator (demoOptions 3 True False)))
   \<and> \<not> isPlaying (projr (FrameAnimator (demoOptions 3 True False)))
   \<and> isPlaying (play 0 (projr (FrameAnimator (demoOptions 3 True False))))
   \<and> isPlaying (playFromFrame 28 0 (projr (FrameAnimator (demoOptions 3 True False))))
   \<and> currentFrame (playFromFrame 28 0 (projr (FrameAnimator (demoOptions 3 True False)))) = 2"
  by code_simp

text \<open>
  C6 (amended): while the animator is playing, or its error flag is set, or its loading
  flag is set (\<open>init\<close> sets it once frame 1 has arrived and clears it when the last batch
  has loaded), \<open>play\<close> and \<open>playFromFrame\<close> return the state they were given.  Neither
  method has a statement that raises, so nothing propagates to the caller.
\<close>

theorem play_noop:
  "isPlaying s \<or> hasError s \<or> isLoading s \<Longrightarrow> play now s = s \<and> playFromFrame startFrame now s = s"
  by (simp add: play_def playFromFrame_def)

theorem play_noop_witness:
  "isPlaying (play 0 (demoAnimator 3 True False))
   \<and> play 500 (play 0 (demoAnimator 3 True False)) = play 0 (demoAnimator 3 True False)
   \<and> playFromFrame 28 500 (play 0 (demoAnimator 3 True False)) = play 0 (demoAnimator 3 True False)
   \<and> isLoading (init_firstFrame Some (\<lambda>img. (800, 400)) 400 300 0
        (projr (FrameAnimator (demoOptions 3 True False))))
   \<and> play 500 (init_firstFrame Some (\<lambda>img. (800, 400)) 400 300 0
        (projr (FrameAnimator (demoOptions 3 True False))))
       = init_firstFrame Some (\<lambda>img. (800, 400)) 400 300 0
        (projr (FrameAnimator (demoOptions 3 True False)))
   \<and> playFromFrame 28 500 (init_firstFrame Some (\<lambda>img. (800, 400)) 400 300 0
        (projr (FrameAnimator (demoOptions 3 True False))))
       = init_firstFrame Some (\<lambda>img. (800, 400)) 400 300 0
        (projr (FrameAnimator (demoOptions 3 True False)))
   \<and> hasError (init_firstFrame (\<lambda>n. None) (\<lambda>img. (800, 400)) 400 300 0
        (projr (FrameAnimator (demoOptions 3 True False))))
   \<and> play 500 (init_firstFrame (\<lambda>n. None) (\<lambda>img. (800, 400)) 400 300 0
        (projr (FrameAnimator (demoOptions 3 True False))))
       = init_firstFrame (\<lambda>n. None) (\<lambda>img. (800, 400)) 400 300 0
        (projr (FrameAnimator (demoOptions 3 True False)))
   \<and> playFromFrame 28 500 (init_firstFrame (\<lambda>n. None) (\<lambda>img. (800, 400)) 400 300 0
        (projr (FrameAnimator (demoOptions 3 True False))))
       = init_firstFrame (\<lambda>n. None) (\<lambda>img. (800, 400)) 400 300 0
        (projr (FrameAnimator (demoOptions 3 True False)))"
proof -
  let ?P = "play 0 (demoAnimator 3 True False)"
  let ?L = "init_firstFrame Some (\<lambda>img. (800, 400)) 400 300 0
        (projr (FrameAnimator (demoOptions 3 True False)))"
  let ?E = "init_firstFrame (\<lambda>n. None) (\<lambda>img. (800, 400)) 400 300 0
        (projr (FrameAnimator (demoOptions 3 True False)))"
  have p: "isPlaying ?P" by code_simp
  have l: "isLoading ?L" by code_simp
  have e: "hasError ?E" by code_simp
  have p': "isPlaying ?P \<or> hasError ?P \<or> isLoading ?P" using p by simp
  have l': "isPlaying ?L \<or> hasError ?L \<or> isLoading ?L" using l by simp
  have e': "isPlaying ?E \<or> hasError ?E \<or> isLoading ?E" using e by simp
  from play_noop [OF p', of 500 28] play_noop [OF l', of 500 28] play_noop [OF e', of 500 28]
    p l e
  show ?thesis by simp
qed

subsection \<open>\<open>renderFrame\<close> advances before it looks up the slot\<close>

text \<open>
  C9: unless the play-once run is frozen, every \<open>renderFrame\<close> moves the index to
  \<open>(currentFrame + 1) mod frameCount\<close> before the slot is read: also when the slot is
  empty and nothing is drawn, and also when \<open>handleResize\<close> makes the call, playing or not.
\<close>

theorem renderFrame_advances_first:
  "0 < frameCount s \<Longrightarrow> \<not> frozen s \<Longrightarrow>
     currentFrame (renderFrame thr s) = (currentFrame s + 1) mod frameCount s
   \<and> (slot (images s) ((currentFrame s + 1) mod frameCount s) = None \<longrightarrow>
        renderFrame thr s = s\<lparr>currentFrame := (currentFrame s + 1) mod frameCount s\<rparr>)
   \<and> (originalWidth s \<noteq> 0 \<and> originalHeight s \<noteq> 0 \<longrightarrow>
        currentFrame (handleResize cw ch thr s) = (currentFrame s + 1) mod frameCount s)"
proof -
  assume fc: "0 < frameCount s" and nf: "\<not> frozen s"
  let ?u = "updateCanvasSize cw ch s"
  have u: "\<not> frozen ?u" "currentFrame ?u = currentFrame s" "frameCount ?u = frameCount s"
    using nf by (simp_all add: updateCanvasSize_def Let_def frozen_def)
  have a: "currentFrame (renderFrame thr s) = (currentFrame s + 1) mod frameCount s"
    using nf by (simp add: renderFrame_currentFrame)
  have b: "slot (images s) ((currentFrame s + 1) mod frameCount s) = None \<longrightarrow>
        renderFrame thr s = s\<lparr>currentFrame := (currentFrame s + 1) mod frameCount s\<rparr>"
    using nf by (simp add: renderFrame_empty_slot)
  have c: "originalWidth s \<noteq> 0 \<and> originalHeight s \<noteq> 0 \<longrightarrow>
        currentFrame (handleResize cw ch thr s) = (currentFrame s + 1) mod frameCount s"
    using u by (simp add: handleResize_def renderFrame_currentFrame)
  from a b c show ?thesis by blast
qed

theorem renderFrame_advances_first_witness:
  "\<not> isPlaying (demoSized 3 True False)
   \<and> currentFrame (demoSized 3 True False) = 0
   \<and> currentFrame (renderFrame False (demoSized 3 True False)) = 1
   \<and> currentFrame (handleResize 400 300 False (demoSized 3 True False)) = 1
   \<and> renderFrame False (projr (FrameAnimator (demoOptions 3 True False)))
       = (projr (FrameAnimator (demoOptions 3 True False)))\<lparr>currentFrame := 1\<rparr>"
proof -
  have h1: "0 < frameCount (demoSized 3 True False)" "\<not> frozen (demoSized 3 True False)"
    by code_simp+
  have h2: "0 < frameCount (projr (FrameAnimator (demoOptions 3 True False)))"
    "\<not> frozen (projr (FrameAnimator (demoOptions 3 True False)))"
    by code_simp+
  have e1: "currentFrame (demoSized 3 True False) = 0" "frameCount (demoSized 3 True False) = 3"
    "originalWidth (demoSized 3 True False) = 800" "originalHeight (demoSized 3 True False) = 400"
    "\<not> isPlaying (demoSized 3 True False)"
    by code_simp+
  have e2: "currentFrame (projr (FrameAnimator (demoOptions 3 True False))) = 0"
    "frameCount (projr (FrameAnimator (demoOptions 3 True False))) = 3"
    "slot (images (projr (FrameAnimator (demoOptions 3 True False)))) (Suc 0) = None"
    by code_simp+
  show ?thesis
    using renderFrame_advances_first [OF h1, of False 400 300]
          renderFrame_advances_first [OF h2, of False 400 300]
    by (simp add: e1 e2)
qed

subsection \<open>One tick\<close>

text \<open>
  C4 (as the specification states it, refuted): with 25 frames per second the interval is
  40 ms, and a tick exactly 40 ms after \<open>lastTime\<close> neither advances nor draws; and a tick
  on a playing play-once animator that has completed (possible when it also loops) stops
  it without advancing, however much time has passed.
\<close>

theorem animate_no_advance_counterexample:
  "lastTime (play 0 (demoAnimator 3 True False)) = Some (Fin 0)
   \<and> elapsed 40 (lastTime (play 0 (demoAnimator 3 True False))) = Fin 40
   \<and> ddiv 1000 (fps (play 0 (demoAnimator 3 True False))) = Fin 40
   \<and> isPlaying (play 0 (demoAnimator 3 True False))
   \<and> currentFrame (play 0 (demoAnimator 3 True False)) = 0
   \<and> currentFrame (animate 40 False (play 0 (demoAnimator 3 True False))) = 0
   \<and> drawn (animate 40 False (play 0 (demoAnimator 3 True False))) = []
   \<and> isPlaying (animate 100 False (play 0 (demoAnimator 2 True True)))
   \<and> currentFrame (animate 100 False (play 0 (demoAnimator 2 True True))) = 1
   \<and> currentFrame (animate 200 False (animate 100 False (play 0 (demoAnimator 2 True True)))) = 1"
  by code_simp

text \<open>
  C4 (amended): on a tick while playing, with the play-once run not completed, the
  elapsed time is the double \<open>timestamp - lastTime\<close> and the interval the double
  \<open>1000 / fps\<close>.  If the elapsed time is not greater than the interval, nothing advances
  or is drawn, \<open>lastTime\<close> stays and the callback is registered again; if it is greater,
  the index advances exactly once, whatever the multiple of the interval, and \<open>lastTime\<close>
  becomes the double \<open>timestamp - (elapsed % interval)\<close>, where for a finite positive
  interval the remainder lies in \<open>[0, interval)\<close>.
\<close>

theorem animate_one_advance_per_tick:
  assumes "0 < frameCount s" "isPlaying s" "\<not> (playOnce s \<and> hasPlayed s)"
  shows "(\<not> dgt (elapsed ts (lastTime s)) (ddiv 1000 (fps s)) \<longrightarrow>
            animate ts thr s = requestAnimationFrame s
          \<and> currentFrame (animate ts thr s) = currentFrame s
          \<and> drawn (animate ts thr s) = drawn s
          \<and> lastTime (animate ts thr s) = lastTime s
          \<and> pending (animate ts thr s) = pending s @ [rafCounter s + 1])
       \<and> (dgt (elapsed ts (lastTime s)) (ddiv 1000 (fps s)) \<longrightarrow>
            currentFrame (animate ts thr s) = (currentFrame s + 1) mod frameCount s
          \<and> lastTime (animate ts thr s)
              = Some (dsub ts (drem (elapsed ts (lastTime s)) (ddiv 1000 (fps s))))
          \<and> (drawn (animate ts thr s) = drawn s
              \<or> drawn (animate ts thr s) = drawn s @ [(currentFrame s + 1) mod frameCount s]))
       \<and> (lastTime s = Some (Fin lt) \<longrightarrow> elapsed ts (lastTime s) = toDouble (ts - lt))
       \<and> (fps s \<noteq> 0 \<longrightarrow> ddiv 1000 (fps s) = toDouble (1000 / fps s))
       \<and> (elapsed ts (lastTime s) = Fin d \<and> ddiv 1000 (fps s) = Fin i \<and> 0 < i \<longrightarrow>
            dgt (elapsed ts (lastTime s)) (ddiv 1000 (fps s)) = (i < d)
          \<and> (i < d \<longrightarrow> drem (elapsed ts (lastTime s)) (ddiv 1000 (fps s)) = Fin (js_rem d i)
                \<and> 0 \<le> js_rem d i \<and> js_rem d i < i))"
proof (intro conjI impI)
  assume w: "\<not> dgt (elapsed ts (lastTime s)) (ddiv 1000 (fps s))"
  note a = animate_wait [OF assms(2,3) w]
  show "animate ts thr s = requestAnimationFrame s" by (rule a)
  show "currentFrame (animate ts thr s) = currentFrame s" by (simp add: a raf_fields)
  show "drawn (animate ts thr s) = drawn s" by (simp add: a raf_fields)
  show "lastTime (animate ts thr s) = lastTime s" by (simp add: a raf_fields)
  show "pending (animate ts thr s) = pending s @ [rafCounter s + 1]" by (simp add: a raf_fields)
next
  assume r: "dgt (elapsed ts (lastTime s)) (ddiv 1000 (fps s))"
  note f = animate_render_fields [OF assms(2,3) r]
  show "currentFrame (animate ts thr s) = (currentFrame s + 1) mod frameCount s" by (rule f(1))
  show "lastTime (animate ts thr s)
          = Some (dsub ts (drem (elapsed ts (lastTime s)) (ddiv 1000 (fps s))))" by (rule f(2))
  show "drawn (animate ts thr s) = drawn s
              \<or> drawn (animate ts thr s) = drawn s @ [(currentFrame s + 1) mod frameCount s]"
    by (simp add: f(3))
next
  assume "lastTime s = Some (Fin lt)"
  then show "elapsed ts (lastTime s) = toDouble (ts - lt)" by simp
next
  assume "fps s \<noteq> 0"
  then show "ddiv 1000 (fps s) = toDouble (1000 / fps s)" by (simp add: ddiv_def)
next
  assume fin: "elapsed ts (lastTime s) = Fin d \<and> ddiv 1000 (fps s) = Fin i \<and> 0 < i"
  then show "dgt (elapsed ts (lastTime s)) (ddiv 1000 (fps s)) = (i < d)" by simp
  show "drem (elapsed ts (lastTime s)) (ddiv 1000 (fps s)) = Fin (js_rem d i)" if "i < d"
    using fin by simp
  show "0 \<le> js_rem d i" if "i < d" using js_rem_bounds(1) [of i d] fin that by simp
  show "js_rem d i < i" if "i < d" using js_rem_bounds(2) [of i d] fin that by simp
qed

theorem animate_one_advance_per_tick_witness:
  "currentFrame (play 0 (demoAnimator 3 True False)) = 0
   \<and> currentFrame (animate 92 False (play 0 (demoAnimator 3 True False))) = 1
   \<and> lastTime (animate 92 False (play 0 (demoAnimator 3 True False))) = Some (Fin 80)
   \<and> currentFrame (animate 30 False (play 0 (demoAnimator 3 True False))) = 0
   \<and> drawn (animate 30 False (play 0 (demoAnimator 3 True False))) = []
   \<and> lastTime (animate 30 False (play 0 (demoAnimator 3 True False))) = Some (Fin 0)"
proof -
  let ?s = "play 0 (demoAnimator 3 True False)"
  have h: "0 < frameCount ?s" "isPlaying ?s" "\<not> (playOnce ?s \<and> hasPlayed ?s)"
    by code_simp+
  have e: "lastTime ?s = Some (Fin 0)" "fps ?s = 25" "frameCount ?s = 3" "currentFrame ?s = 0"
    "drawn ?s = []" "js_rem 92 40 = 12"
    by code_simp+
  have d: "toDouble 92 = Fin 92" "toDouble 40 = Fin 40" "toDouble 30 = Fin 30"
    "toDouble 80 = Fin 80"
    using toDouble_int [of 92] toDouble_int [of 40] toDouble_int [of 30] toDouble_int [of 80]
    by simp_all
  show ?thesis
    using animate_one_advance_per_tick [OF h, of 92 False 0 92 40]
          animate_one_advance_per_tick [OF h, of 30 False 0 30 40]
    by (simp add: e d ddiv_def raf_fields)
qed

text \<open>
  Rounding decides some ticks.  At 25 frames per second, \<open>play\<close> at the double 0.1 and a
  tick at the double 40.1 give an elapsed time of exactly 40 and no advance.  At 24, ticks
  at 100 and 125 after \<open>play\<close> at 0 both advance.  At 30, a tick at 100 leaves \<open>lastTime\<close> at
  twice the double \<open>1000 / 30\<close>.
\<close>

lemma animate_rounding_examples:
  "toDouble (1 / 10) = Fin (3602879701896397 / 36028797018963968)
   \<and> toDouble (401 / 10) = Fin (5643573283048653 / 140737488355328)
   \<and> currentFrame (animate (5643573283048653 / 140737488355328) False
        (play (3602879701896397 / 36028797018963968) (demoAnimator 3 True False))) = 0
   \<and> currentFrame (animate 100 False (play 0 ((demoAnimator 3 True False)\<lparr>fps := 24\<rparr>))) = 1
   \<and> currentFrame (animate 125 False
        (animate 100 False (play 0 ((demoAnimator 3 True False)\<lparr>fps := 24\<rparr>)))) = 2
   \<and> lastTime (animate 100 False (play 0 ((demoAnimator 3 True False)\<lparr>fps := 30\<rparr>)))
        = Some (Fin (4691249611844267 / 70368744177664))"
  by code_simp

subsection \<open>Order of advancing and drawing\<close>

text \<open>
  C1 (as the specification states it, refuted): after a fresh \<open>play\<close> on three loaded
  frames the index is 0, and the first tick past the interval draws index 1, not 0.
\<close>

theorem first_frame_drawn_is_index_one:
  "currentFrame (play 0 (demoAnimator 3 True False)) = 0
   \<and> images (demoAnimator 3 True False) = [Some 1, Some 2, Some 3]
   \<and> drawn (play 0 (demoAnimator 3 True False)) = []
   \<and> drawn (animate 100 False (play 0 (demoAnimator 3 True False))) = [1]"
  by code_simp

text \<open>
  C1 (amended): on a tick whose elapsed time exceeds the interval (playing, play-once run
  not completed) the index first advances to \<open>(currentFrame + 1) mod frameCount\<close> and the
  frame at the new index is the one drawn (nothing is drawn if that slot is empty or the
  drawing raises); so after a fresh \<open>play\<close>, which sets the index to 0, the first frame
  drawn is \<open>1 mod frameCount\<close>.
\<close>

theorem animate_advances_then_draws:
  "(0 < frameCount s \<and> isPlaying s \<and> \<not> (playOnce s \<and> hasPlayed s)
      \<and> dgt (elapsed ts (lastTime s)) (ddiv 1000 (fps s)) \<longrightarrow>
        currentFrame (animate ts thr s) = (currentFrame s + 1) mod frameCount s
      \<and> (slot (images s) ((currentFrame s + 1) mod frameCount s) \<noteq> None \<and> \<not> thr \<longrightarrow>
           drawn (animate ts thr s) = drawn s @ [(currentFrame s + 1) mod frameCount s])
      \<and> (slot (images s) ((currentFrame s + 1) mod frameCount s) = None \<or> thr \<longrightarrow>
           drawn (animate ts thr s) = drawn s))
   \<and> (0 < frameCount p \<and> \<not> isPlaying p \<and> \<not> hasError p \<and> \<not> isLoading p
      \<and> dgt (toDouble (ts - now)) (ddiv 1000 (fps p))
      \<and> slot (images p) (1 mod frameCount p) \<noteq> None \<longrightarrow>
        currentFrame (play now p) = 0
      \<and> drawn (animate ts False (play now p)) = drawn p @ [1 mod frameCount p])"
proof (intro conjI impI)
  assume a: "0 < frameCount s \<and> isPlaying s \<and> \<not> (playOnce s \<and> hasPlayed s)
      \<and> dgt (elapsed ts (lastTime s)) (ddiv 1000 (fps s))"
  then have h: "isPlaying s" "\<not> (playOnce s \<and> hasPlayed s)"
    "dgt (elapsed ts (lastTime s)) (ddiv 1000 (fps s))" by blast+
  note f = animate_render_fields [OF h]
  show "currentFrame (animate ts thr s) = (currentFrame s + 1) mod frameCount s" by (rule f(1))
  show "drawn (animate ts thr s) = drawn s @ [(currentFrame s + 1) mod frameCount s]"
    if "slot (images s) ((currentFrame s + 1) mod frameCount s) \<noteq> None \<and> \<not> thr"
    using that by (simp add: f(3))
  show "drawn (animate ts thr s) = drawn s"
    if "slot (images s) ((currentFrame s + 1) mod frameCount s) = None \<or> thr"
    using that by (auto simp add: f(3))
next
  assume b: "0 < frameCount p \<and> \<not> isPlaying p \<and> \<not> hasError p \<and> \<not> isLoading p
      \<and> dgt (toDouble (ts - now)) (ddiv 1000 (fps p))
      \<and> slot (images p) (1 mod frameCount p) \<noteq> None"
  let ?q = "play now p"
  have q: "?q = requestAnimationFrame
             (p\<lparr>currentFrame := 0, hasPlayed := False, isPlaying := True,
                lastTime := Some (Fin now)\<rparr>)"
    using b by (simp add: play_def)
  have h: "isPlaying ?q" "\<not> (playOnce ?q \<and> hasPlayed ?q)"
    "dgt (elapsed ts (lastTime ?q)) (ddiv 1000 (fps ?q))"
    using b by (simp_all add: q raf_fields)
  have e: "currentFrame ?q = 0" "frameCount ?q = frameCount p" "images ?q = images p"
    "drawn ?q = drawn p"
    by (simp_all add: q raf_fields)
  show "currentFrame (play now p) = 0" by (rule e(1))
  show "drawn (animate ts False (play now p)) = drawn p @ [1 mod frameCount p]"
    using b by (simp add: animate_render_fields(3) [OF h] e)
qed

theorem animate_advances_then_draws_witness:
  "currentFrame (play 0 (demoAnimator 3 True False)) = 0
   \<and> currentFrame (animate 100 False (play 0 (demoAnimator 3 True False))) = 1
   \<and> drawn (animate 100 False (play 0 (demoAnimator 3 True False))) = [1]"
proof -
  let ?p = "demoAnimator 3 True False"
  let ?s = "play 0 ?p"
  have h: "0 < frameCount ?s \<and> isPlaying ?s \<and> \<not> (playOnce ?s \<and> hasPlayed ?s)
      \<and> dgt (elapsed 100 (lastTime ?s)) (ddiv 1000 (fps ?s))"
    by code_simp
  have g: "0 < frameCount ?p \<and> \<not> isPlaying ?p \<and> \<not> hasError ?p \<and> \<not> isLoading ?p
      \<and> dgt (toDouble (100 - 0)) (ddiv 1000 (fps ?p))
      \<and> slot (images ?p) (1 mod frameCount ?p) \<noteq> None"
    by code_simp
  have e: "frameCount ?s = 3" "currentFrame ?s = 0" "frameCount ?p = 3" "drawn ?p = []"
    by code_simp+
  show ?thesis
    using animate_advances_then_draws [where s = ?s and ts = 100 and thr = False
        and p = ?p and now = 0] h g
    by (simp add: e)
qed

subsection \<open>Play-once without loop\<close>

text \<open>
  C2 (as the specification states it, refuted): during a play-once run without loop a
  resize can bring the index to \<open>frameCount - 1\<close> and draw that frame; \<open>hasPlayed\<close> is not
  set by it, playback goes on, and the next tick wraps the index to 0 and draws again.
\<close>

theorem resize_reaches_last_frame_without_stopping:
  "playOnce (demoSized 3 False True) \<and> \<not> loop (demoSized 3 False True)
   \<and> currentFrame (animate 50 False (play 0 (demoSized 3 False True))) = 1
   \<and> currentFrame (handleResize 400 300 False (animate 50 False (play 0 (demoSized 3 False True)))) = 2
   \<and> drawn (handleResize 400 300 False (animate 50 False (play 0 (demoSized 3 False True)))) = [1, 2]
   \<and> isPlaying (handleResize 400 300 False (animate 50 False (play 0 (demoSized 3 False True))))
   \<and> isPlaying (animate 100 False
        (handleResize 400 300 False (animate 50 False (play 0 (demoSized 3 False True)))))
   \<and> currentFrame (animate 100 False
        (handleResize 400 300 False (animate 50 False (play 0 (demoSized 3 False True))))) = 0
   \<and> drawn (animate 100 False
        (handleResize 400 300 False (animate 50 False (play 0 (demoSized 3 False True))))) = [1, 2, 0]"
proof -
  let ?a = "animate 50 False (play 0 (demoSized 3 False True))"
  let ?h = "handleResize 400 300 False ?a"
  have d: "playOnce (demoSized 3 False True)" "\<not> loop (demoSized 3 False True)" by code_simp+
  have a: "currentFrame ?a = 1" "originalWidth ?a \<noteq> 0" "originalHeight ?a \<noteq> 0"
    "currentFrame (renderFrame False ?a) = 2" "drawn (renderFrame False ?a) = [1, 2]"
    "isPlaying (renderFrame False ?a)" "\<not> hasPlayed ?a" "playOnce ?a" "\<not> loop ?a"
    "dgt (elapsed 100 (lastTime ?a)) (ddiv 1000 (fps ?a))" "frameCount ?a = 3"
    "slot (images ?a) 0 \<noteq> None"
    by code_simp+
  note h = handleResize_fields [OF a(2,3), of 400 300 False]
  have hp: "isPlaying ?h" "\<not> (playOnce ?h \<and> hasPlayed ?h)"
    "dgt (elapsed 100 (lastTime ?h)) (ddiv 1000 (fps ?h))"
    using a by (simp_all add: h)
  note f = animate_render_fields [OF hp, of False]
  have rp: "isPlaying (renderFrame False ?h)" using hp(1) by (simp add: renderFrame_isPlaying)
  have 1: "currentFrame (animate 100 False ?h) = 0" using f(1) a by (simp add: h)
  have 2: "drawn (animate 100 False ?h) = [1, 2, 0]" using f(3) a by (simp add: h)
  have 3: "isPlaying (animate 100 False ?h)"
    using rp a by (simp add: animate_render_isPlaying [OF hp] h)
  show ?thesis using d a 1 2 3 by (simp add: h)
qed

text \<open>
  C2 (amended): with \<open>playOnce\<close> and without \<open>loop\<close>, once a clock tick has brought the
  index to \<open>frameCount - 1\<close> and rendered that frame, the scheduler is stopped and has
  registered no callback; after it every further call of \<open>animate\<close> returns the state
  unchanged, and further refreshes of the host change neither the index nor what has
  been drawn.
\<close>

theorem playOnce_stops_after_last_frame:
  assumes "0 < frameCount s" "isPlaying s" "playOnce s" "\<not> loop s" "\<not> hasPlayed s"
    "dgt (elapsed ts (lastTime s)) (ddiv 1000 (fps s))"
    "(currentFrame s + 1) mod frameCount s = frameCount s - 1"
  shows "\<not> isPlaying (animate ts thr s)
       \<and> currentFrame (animate ts thr s) = frameCount s - 1
       \<and> hasPlayed (animate ts thr s)
       \<and> (slot (images s) (frameCount s - 1) \<noteq> None \<and> \<not> thr \<longrightarrow>
            drawn (animate ts thr s) = drawn s @ [frameCount s - 1])
       \<and> rafCounter (animate ts thr s) = rafCounter s
       \<and> set (pending (animate ts thr s)) \<subseteq> set (pending s)
       \<and> animateAll inps (animate ts thr s) = animate ts thr s
       \<and> \<not> isPlaying (ticks inps (animate ts thr s))
       \<and> currentFrame (ticks inps (animate ts thr s)) = frameCount s - 1
       \<and> drawn (ticks inps (animate ts thr s)) = drawn (animate ts thr s)"
proof -
  let ?a = "animate ts thr s"
  have np: "\<not> (playOnce s \<and> hasPlayed s)" using assms(5) by simp
  note f = animate_render_fields [OF assms(2) np assms(6)]
  have last: "int ((currentFrame s + 1) mod frameCount s) = int (frameCount s) - 1"
    using assms(1,7) by simp
  have cf: "currentFrame (renderFrame thr s) = (currentFrame s + 1) mod frameCount s"
    using not_frozen [OF np] by (simp add: renderFrame_currentFrame)
  have a: "?a = stop ((renderFrame thr s)\<lparr>lastTime :=
                 Some (dsub ts (drem (elapsed ts (lastTime s)) (ddiv 1000 (fps s)))),
               hasPlayed := True\<rparr>)"
    using last assms(3,4) cf
    by (simp add: animate_render [OF assms(2) np assms(6)] Let_def)
  have 1: "\<not> isPlaying ?a" by (simp add: a stop_fields)
  have 2: "currentFrame ?a = frameCount s - 1" using f(1) assms(7) by simp
  have 3: "hasPlayed ?a" by (simp add: a stop_fields)
  have 4: "slot (images s) (frameCount s - 1) \<noteq> None \<and> \<not> thr \<longrightarrow>
            drawn ?a = drawn s @ [frameCount s - 1]"
    using f(3) assms(7) by simp
  have 5: "rafCounter ?a = rafCounter s" by (simp add: a stop_fields renderFrame_fields)
  have 6: "set (pending ?a) \<subseteq> set (pending s)"
  proof -
    have "set (pending ?a) \<subseteq> set (pending (renderFrame thr s))"
      unfolding a using stop_pending by fastforce
    with renderFrame_pending show ?thesis by blast
  qed
  have 7: "animateAll inps ?a = ?a" using 1 by (rule animateAll_not_playing)
  from ticks_not_playing [OF 1] obtain p where p: "ticks inps ?a = ?a\<lparr>pending := p\<rparr>" by blast
  have 8: "\<not> isPlaying (ticks inps ?a)" using 1 by (simp add: p)
  have 9: "currentFrame (ticks inps ?a) = frameCount s - 1" using 2 by (simp add: p)
  have 10: "drawn (ticks inps ?a) = drawn ?a" by (simp add: p)
  from 1 2 3 4 5 6 7 8 9 10 show ?thesis by blast
qed

theorem playOnce_stops_after_last_frame_witness:
  "isPlaying (play 0 (demoAnimator 2 False True))
   \<and> \<not> isPlaying (animate 100 False (play 0 (demoAnimator 2 False True)))
   \<and> currentFrame (animate 100 False (play 0 (demoAnimator 2 False True))) = 1
   \<and> drawn (animate 100 False (play 0 (demoAnimator 2 False True))) = [1]
   \<and> animateAll [(200, False), (300, False)] (animate 100 False (play 0 (demoAnimator 2 False True)))
       = animate 100 False (play 0 (demoAnimator 2 False True))
   \<and> drawn (ticks [(200, False), (300, False)] (animate 100 False (play 0 (demoAnimator 2 False True)))) = [1]"
proof -
  let ?s = "play 0 (demoAnimator 2 False True)"
  have h: "0 < frameCount ?s" "isPlaying ?s" "playOnce ?s" "\<not> loop ?s"
    "\<not> hasPlayed ?s" "dgt (elapsed 100 (lastTime ?s)) (ddiv 1000 (fps ?s))"
    "(currentFrame ?s + 1) mod frameCount ?s = frameCount ?s - 1"
    by code_simp+
  have e: "frameCount ?s = 2" "drawn ?s = []" "slot (images ?s) (Suc 0) \<noteq> None"
    by code_simp+
  show ?thesis
    using playOnce_stops_after_last_frame [OF h, of False "[(200, False), (300, False)]"] h(2)
    by (simp add: e)
qed

subsection \<open>Looping playback\<close>


text \<open>
  Without \<open>playOnce\<close> playback does go on for ever: through any run of refreshes without a
  draw failure the animator stays playing with a callback registered, and the index is
  the initial one plus the number of refreshes on which the test of \<open>animate\<close> succeeded,
  modulo \<open>frameCount\<close>.
\<close>

lemma playback_without_playOnce_never_stops:
  assumes "0 < frameCount s" "\<not> playOnce s" "isPlaying s" "pending s \<noteq> []"
    "currentFrame s < frameCount s" "\<forall>inp\<in>set inps. \<not> snd inp"
  shows "isPlaying (ticks inps s) \<and> pending (ticks inps s) \<noteq> []
       \<and> currentFrame (ticks inps s) = (currentFrame s + renders inps s) mod frameCount s"
  using assms
proof (induction inps arbitrary: s)
  case Nil
  then show ?case by simp
next
  case (Cons inp inps)
  let ?u = "s\<lparr>pending := tl (pending s)\<rparr>"
  have t: "tick inp s = animate (fst inp) False ?u"
    using Cons.prems(4,6) by (simp add: tick_animate)
  have u: "isPlaying ?u" "\<not> playOnce ?u" using Cons.prems by simp_all
  have du: "due (fst inp) ?u = due (fst inp) s" by (simp add: due_def)
  note l = animate_live [OF u, of "fst inp", folded t, unfolded du]
  have fc: "frameCount (tick inp s) = frameCount s" using l by simp
  have cf: "currentFrame (tick inp s)
      = (if due (fst inp) s then (currentFrame s + 1) mod frameCount s else currentFrame s)"
    using l by simp
  have lt: "currentFrame (tick inp s) < frameCount (tick inp s)"
    using Cons.prems(1,5) by (simp add: cf fc)
  have nt: "\<forall>i\<in>set inps. \<not> snd i" using Cons.prems(6) by simp
  have ih: "isPlaying (ticks inps (tick inp s)) \<and> pending (ticks inps (tick inp s)) \<noteq> []
       \<and> currentFrame (ticks inps (tick inp s))
           = (currentFrame (tick inp s) + renders inps (tick inp s)) mod frameCount (tick inp s)"
    using Cons.IH [OF _ _ _ _ lt nt] l Cons.prems(1) fc by simp
  show ?case
  proof (cases "due (fst inp) s")
    case True
    then show ?thesis using ih by (simp add: cf fc mod_add_left_eq)
  next
    case False
    then show ?thesis using ih by (simp add: cf fc)
  qed
qed

section \<open>Loading\<close>

lemma loadFrame_keeps:
  "progressLog (fst (loadFrame decode n s)) = progressLog s"
  "frameCount (fst (loadFrame decode n s)) = frameCount s"
  by (simp_all add: loadFrame_def split: option.splits)

lemma loadBatch_keeps:
  "progressLog (fst (loadBatch decode ns s)) = progressLog s
   \<and> frameCount (fst (loadBatch decode ns s)) = frameCount s"
proof (induction ns arbitrary: s)
  case Nil
  then show ?case by simp
next
  case (Cons n ns)
  show ?case
    using Cons.IH [of "fst (loadFrame decode n s)"] loadFrame_keeps [of decode n s]
    by (auto split: prod.splits)
qed

lemma loadBatches_progress:
  "loadBatches decode T b s = (s', err) \<Longrightarrow> b \<le> T \<Longrightarrow>
   \<exists>m. b \<le> m \<and> m \<le> T
     \<and> progressLog s' = progressLog s @ map (\<lambda>k. of_nat (Suc k) / of_nat T) [b..<m]
     \<and> (err = None \<longleftrightarrow> m = T)"
proof (induction decode T b s rule: loadBatches.induct)
  case (1 decode T b s)
  show ?case
  proof (cases "b < T")
    case False
    with "1.prems" have "b = T" "s' = s" "err = None"
      by (simp_all add: loadBatches.simps [of decode T b s])
    then show ?thesis by auto
  next
    case True
    let ?ns = "[b * batchSize + 1 ..< min ((b + 1) * batchSize) (frameCount s) + 1]"
    obtain s1 e where lb: "loadBatch decode ?ns s = (s1, e)" by (cases "loadBatch decode ?ns s")
    have k: "progressLog s1 = progressLog s"
      using loadBatch_keeps [of decode ?ns s] lb by simp
    show ?thesis
    proof (cases e)
      case (Some x)
      with True lb "1.prems" have "s' = s1" "err = Some x"
        by (simp_all add: loadBatches.simps [of decode T b s] Let_def)
      with k True show ?thesis by (intro exI [of _ b]) simp
    next
      case None
      let ?s2 = "updateProgress (of_nat (b + 1) / of_nat T) s1"
      have rec: "loadBatches decode T (b + 1) ?s2 = (s', err)"
        using True lb None "1.prems" by (simp add: loadBatches.simps [of decode T b s] Let_def)
      have "\<exists>m. b + 1 \<le> m \<and> m \<le> T
          \<and> progressLog s' = progressLog ?s2 @ map (\<lambda>k. of_nat (Suc k) / of_nat T) [b + 1..<m]
          \<and> (err = None \<longleftrightarrow> m = T)"
        using "1.IH" [OF True refl refl lb [symmetric] None rec] True by simp
      then obtain m where m: "b + 1 \<le> m" "m \<le> T"
          "progressLog s' = progressLog ?s2 @ map (\<lambda>k. of_nat (Suc k) / of_nat T) [b + 1..<m]"
          "err = None \<longleftrightarrow> m = T" by blast
      have u: "[b..<m] = b # [b + 1..<m]" using m(1) by (simp add: upt_conv_Cons)
      have "progressLog s' = progressLog s @ map (\<lambda>k. of_nat (Suc k) / of_nat T) [b..<m]"
        using m(3) k by (simp add: u updateProgress_def)
      with m show ?thesis by (intro exI [of _ m]) simp
    qed
  qed
qed

lemma totalBatchesOf_pos: "0 < n \<Longrightarrow> 0 < totalBatchesOf n"
  by (simp add: totalBatchesOf_def batchSize_def)

lemma init_loaded_cases:
  "loadAllFrames decode s = (s1, Some e) \<Longrightarrow> init_loaded decode now s = error s1"
  "loadAllFrames decode s = (s1, None) \<Longrightarrow> autoplay s1 \<Longrightarrow>
     init_loaded decode now s = play now (s1\<lparr>isLoading := False\<rparr>)"
  "loadAllFrames decode s = (s1, None) \<Longrightarrow> \<not> autoplay s1 \<Longrightarrow>
     init_loaded decode now s = s1\<lparr>isLoading := False\<rparr>"
  by (simp_all add: init_loaded_def)

text \<open>
  C5: the fractions reported during \<open>loadAllFrames\<close> are non-decreasing, the report after
  the \<open>i\<close>-th completed batch is \<open>i / totalBatches\<close>, the value 1 is the report of the last
  batch and of no other, and it is reported exactly when the load succeeds.
\<close>

theorem progress_reports:
  assumes "0 < frameCount s" "loadAllFrames decode s = (s', err)"
  shows "progressLog s' = progressLog s @ reports s s'
       \<and> sorted (reports s s')
       \<and> length (reports s s') \<le> totalBatchesOf (frameCount s)
       \<and> (\<forall>i<length (reports s s').
            reports s s' ! i = of_nat (i + 1) / of_nat (totalBatchesOf (frameCount s)))
       \<and> (\<forall>i<length (reports s s').
            (reports s s' ! i = 1) = (i + 1 = totalBatchesOf (frameCount s)))
       \<and> ((err = None) = (length (reports s s') = totalBatchesOf (frameCount s)))
       \<and> (err = None \<longrightarrow> reports s s' \<noteq> [] \<and> last (reports s s') = 1)"
proof -
  let ?T = "totalBatchesOf (frameCount s)"
  let ?f = "\<lambda>k. (of_nat (Suc k) / of_nat ?T :: rat)"
  have T: "0 < ?T" using assms(1) by (rule totalBatchesOf_pos)
  from loadBatches_progress [of decode ?T 0 s s' err] assms(2)
  obtain m where m: "m \<le> ?T" "progressLog s' = progressLog s @ map ?f [0..<m]"
      "err = None \<longleftrightarrow> m = ?T"
    by (auto simp add: loadAllFrames_def)
  have r: "reports s s' = map ?f [0..<m]" by (simp add: reports_def m(2))
  have len: "length (reports s s') = m" by (simp add: r)
  have nth: "reports s s' ! i = of_nat (i + 1) / of_nat ?T" if "i < m" for i
    using that by (simp add: r)
  have 1: "progressLog s' = progressLog s @ reports s s'" by (simp add: r m(2))
  have 2: "sorted (reports s s')"
  proof (unfold sorted_iff_nth_mono, intro allI impI)
    fix i j assume ij: "i \<le> j" "j < length (reports s s')"
    then have "i < m" "j < m" by (simp_all add: len)
    then have "reports s s' ! i = of_nat (i + 1) / of_nat ?T"
      "reports s s' ! j = of_nat (j + 1) / of_nat ?T" by (simp_all add: nth)
    moreover have "(of_nat (i + 1) :: rat) \<le> of_nat (j + 1)" using ij(1) by simp
    ultimately show "reports s s' ! i \<le> reports s s' ! j"
      by (simp add: divide_right_mono)
  qed
  have 3: "length (reports s s') \<le> ?T" using m(1) by (simp add: len)
  have 4: "\<forall>i<length (reports s s'). reports s s' ! i = of_nat (i + 1) / of_nat ?T"
    using nth by (simp add: len)
  have 5: "\<forall>i<length (reports s s'). (reports s s' ! i = 1) = (i + 1 = ?T)"
  proof (intro allI impI)
    fix i assume "i < length (reports s s')"
    then have "reports s s' ! i = of_nat (i + 1) / of_nat ?T" using 4 by blast
    moreover have "((of_nat (i + 1) :: rat) / of_nat ?T = 1) = (i + 1 = ?T)"
    proof -
      have "((of_nat (i + 1) :: rat) / of_nat ?T = 1) = ((of_nat (i + 1) :: rat) = of_nat ?T)"
        using T by auto
      also have "\<dots> = (i + 1 = ?T)" by (rule of_nat_eq_iff)
      finally show ?thesis .
    qed
    ultimately show "(reports s s' ! i = 1) = (i + 1 = ?T)" by simp
  qed
  have 6: "(err = None) = (length (reports s s') = ?T)" using m(3) by (simp add: len)
  have 7: "err = None \<longrightarrow> reports s s' \<noteq> [] \<and> last (reports s s') = 1"
  proof
    assume "err = None"
    then have mT: "m = ?T" using m(3) by simp
    then have ne: "reports s s' \<noteq> []" using T len by auto
    have "last (reports s s') = reports s s' ! (m - 1)"
      using ne len by (simp add: last_conv_nth)
    also have "\<dots> = 1" using 5 mT T len by simp
    finally show "reports s s' \<noteq> [] \<and> last (reports s s') = 1" using ne by simp
  qed
  from 1 2 3 4 5 6 7 show ?thesis by blast
qed

theorem progress_reports_witness:
  "reports (projr (FrameAnimator (demoOptions 100 True False))) (demoAnimator 100 True False)
      = [1 / 3, 2 / 3, 1]
   \<and> sorted (reports (projr (FrameAnimator (demoOptions 100 True False))) (demoAnimator 100 True False))
   \<and> last (reports (projr (FrameAnimator (demoOptions 100 True False))) (demoAnimator 100 True False)) = 1
   \<and> progressLog (fst (loadAllFrames (\<lambda>n. if n = 50 then None else Some n)
        (projr (FrameAnimator (demoOptions 100 True False))))) = [1 / 3]
   \<and> snd (loadAllFrames (\<lambda>n. if n = 50 then None else Some n)
        (projr (FrameAnimator (demoOptions 100 True False)))) = Some (FrameLoadError 50)"
proof -
  let ?s = "projr (FrameAnimator (demoOptions 100 True False))"
  have h: "0 < frameCount ?s" by code_simp
  have n: "snd (loadAllFrames Some ?s) = None" by code_simp
  have l: "loadAllFrames Some ?s = (demoAnimator 100 True False, None)"
    using n by (simp add: demoAnimator_def prod_eq_iff)
  have e: "reports ?s (demoAnimator 100 True False) = [1 / 3, 2 / 3, 1]" by code_simp
  have f: "progressLog (fst (loadAllFrames (\<lambda>n. if n = 50 then None else Some n) ?s)) = [1 / 3]"
    "snd (loadAllFrames (\<lambda>n. if n = 50 then None else Some n) ?s) = Some (FrameLoadError 50)"
    by code_simp+
  show ?thesis
    using progress_reports [OF h l] e f by simp
qed

end
